theory Spec2Isabelle
  imports Main "HOL-Library.Char_ord" "HOL-Library.List_Lexorder"
begin

section \<open>Strings, as Go has them\<close>

text \<open>
  A Go string is a sequence of bytes; \<^typ>\<open>string\<close> is a list of 8-bit characters, so the two
  agree byte for byte.  The library functions of package \<^verbatim>\<open>strings\<close> that the services call
  are written out here.
\<close>

definition HasPrefix :: "string \<Rightarrow> string \<Rightarrow> bool" where
  "HasPrefix s p = (take (length p) s = p)"

fun Contains :: "string \<Rightarrow> string \<Rightarrow> bool" where
  "Contains [] sub = (sub = [])"
| "Contains (c # cs) sub = (HasPrefix (c # cs) sub \<or> Contains cs sub)"

text \<open>\<^verbatim>\<open>strings.TrimLeft(s, "\n")\<close>: every leading line feed is removed.\<close>

definition TrimLeft_nl :: "string \<Rightarrow> string" where
  "TrimLeft_nl s = dropWhile (\<lambda>c. c = CHR 0x0A) s"

text \<open>
  \<^verbatim>\<open>strings.TrimSpace\<close> removes leading and trailing Unicode white space, read as UTF-8.
  The code only asks whether the result is empty, which is the case exactly when the bytes,
  decoded from the left, are white-space runes only: tab, line feed, vertical tab, form feed,
  carriage return, space, U+0085, U+00A0, U+1680, U+2000 to U+200A, U+2028, U+2029, U+202F,
  U+205F and U+3000.
\<close>

definition ascii_space :: "char \<Rightarrow> bool" where
  "ascii_space c = (c = CHR 0x09 \<or> c = CHR 0x0A \<or> c = CHR 0x0B \<or> c = CHR 0x0C
      \<or> c = CHR 0x0D \<or> c = CHR 0x20)"

definition space2 :: "char \<Rightarrow> char \<Rightarrow> bool" where
  "space2 a b = (a = CHR 0xC2 \<and> (b = CHR 0x85 \<or> b = CHR 0xA0))"

definition space3 :: "char \<Rightarrow> char \<Rightarrow> char \<Rightarrow> bool" where
  "space3 a b c =
     ((a = CHR 0xE1 \<and> b = CHR 0x9A \<and> c = CHR 0x80)
      \<or> (a = CHR 0xE2 \<and> b = CHR 0x80
           \<and> (((0x80 :: nat) \<le> of_char c \<and> (of_char c :: nat) \<le> 0x8A) \<or> c = CHR 0xA8
                \<or> c = CHR 0xA9 \<or> c = CHR 0xAF))
      \<or> (a = CHR 0xE2 \<and> b = CHR 0x81 \<and> c = CHR 0x9F)
      \<or> (a = CHR 0xE3 \<and> b = CHR 0x80 \<and> c = CHR 0x80))"

fun blank :: "string \<Rightarrow> bool" where
  "blank [] = True"
| "blank [a] = ascii_space a"
| "blank [a, b] = (if ascii_space a then blank [b] else space2 a b)"
| "blank (a # b # c # r) =
     (if ascii_space a then blank (b # c # r)
      else if space2 a b then blank (c # r)
      else if space3 a b c then blank r
      else False)"

section \<open>The regular expressions of the response formatter\<close>

text \<open>
  Every pattern of \<^verbatim>\<open>FormatResponse\<close> is a sequence of single characters, character classes
  and starred or optional character classes; none has an alternative or a starred group.  An
  \<open>item\<close> is one such piece: \<open>One\<close> a class matched once, \<open>Many\<close> a greedy star, \<open>Few\<close> a
  lazy star (\<^verbatim>\<open>*?\<close>), \<open>Opt\<close> a greedy \<^verbatim>\<open>?\<close>.  All literals of the patterns are ASCII, and an ASCII
  byte never lies inside a multi-byte UTF-8 sequence, so matching bytes and matching runes find
  the same matches.

  \<open>match_here\<close> gives the length of the match that starts at the head of the input, chosen by
  the leftmost-first rule of package \<^verbatim>\<open>regexp\<close> (the match a backtracking engine finds first).
\<close>

datatype item = One "char \<Rightarrow> bool" | Many "char \<Rightarrow> bool" | Few "char \<Rightarrow> bool" | Opt "char \<Rightarrow> bool"

fun match_here :: "item list \<Rightarrow> string \<Rightarrow> nat option" where
  "match_here [] s = Some 0"
| "match_here (One p # r) [] = None"
| "match_here (One p # r) (c # cs) =
     (if p c then map_option Suc (match_here r cs) else None)"
| "match_here (Opt p # r) [] = match_here r []"
| "match_here (Opt p # r) (c # cs) =
     (if p c
      then (case match_here r cs of Some n \<Rightarrow> Some (Suc n) | None \<Rightarrow> match_here r (c # cs))
      else match_here r (c # cs))"
| "match_here (Many p # r) [] = match_here r []"
| "match_here (Many p # r) (c # cs) =
     (if p c
      then (case match_here (Many p # r) cs of
              Some n \<Rightarrow> Some (Suc n)
            | None \<Rightarrow> match_here r (c # cs))
      else match_here r (c # cs))"
| "match_here (Few p # r) [] = match_here r []"
| "match_here (Few p # r) (c # cs) =
     (case match_here r (c # cs) of
        Some n \<Rightarrow> Some n
      | None \<Rightarrow> (if p c then map_option Suc (match_here (Few p # r) cs) else None))"

definition lit :: "string \<Rightarrow> item list" where
  "lit s = map (\<lambda>c. One (\<lambda>x. x = c)) s"

definition any_char :: "char \<Rightarrow> bool" where
  "any_char c = True"

definition not_nl :: "char \<Rightarrow> bool" where
  "not_nl c = (c \<noteq> CHR 0x0A)"

definition is_nl :: "char \<Rightarrow> bool" where
  "is_nl c = (c = CHR 0x0A)"

definition not_gt :: "char \<Rightarrow> bool" where
  "not_gt c = (c \<noteq> CHR ''>'')"

text \<open>\<^verbatim>\<open>\s\<close> of package \<^verbatim>\<open>regexp\<close> is \<^verbatim>\<open>[\t\n\f\r ]\<close>, and \<^verbatim>\<open>\d\<close> is \<^verbatim>\<open>[0-9]\<close>.\<close>

definition re_space :: "char \<Rightarrow> bool" where
  "re_space c = (c = CHR 0x09 \<or> c = CHR 0x0A \<or> c = CHR 0x0C \<or> c = CHR 0x0D \<or> c = CHR 0x20)"

definition re_digit :: "char \<Rightarrow> bool" where
  "re_digit c = (CHR ''0'' = c \<or> CHR ''1'' = c \<or> CHR ''2'' = c \<or> CHR ''3'' = c \<or> CHR ''4'' = c
      \<or> CHR ''5'' = c \<or> CHR ''6'' = c \<or> CHR ''7'' = c \<or> CHR ''8'' = c \<or> CHR ''9'' = c)"

text \<open>
  \<open>ReplaceAll_with\<close> scans from the left: where the pattern matches, the match is replaced by
  \<open>f\<close> of the matched text and the scan goes on behind it (\<open>k\<close> counts the bytes of the match
  still to be skipped); elsewhere the byte is copied.  No pattern of the formatter matches
  the empty string, so an empty match counts as none.
\<close>

fun ReplaceAll_with :: "item list \<Rightarrow> (string \<Rightarrow> string) \<Rightarrow> nat \<Rightarrow> string \<Rightarrow> string" where
  "ReplaceAll_with pat f k [] = []"
| "ReplaceAll_with pat f (Suc k) (c # cs) = ReplaceAll_with pat f k cs"
| "ReplaceAll_with pat f 0 (c # cs) =
     (case match_here pat (c # cs) of
        None \<Rightarrow> c # ReplaceAll_with pat f 0 cs
      | Some 0 \<Rightarrow> c # ReplaceAll_with pat f 0 cs
      | Some (Suc n) \<Rightarrow> f (take (Suc n) (c # cs)) @ ReplaceAll_with pat f n cs)"

text \<open>
  In \<^verbatim>\<open>ReplaceAllString\<close> the replacement is a template: \<^verbatim>\<open>$$\<close> is a dollar sign, \<^verbatim>\<open>$name\<close> and
  \<^verbatim>\<open>${name}\<close> stand for a submatch, and a dollar sign followed by neither is kept.  The patterns
  here have no group of their own, so only the name \<^verbatim>\<open>0\<close> (the whole match) stands for
  something, and any other name for the empty string.  A name is a longest run of letters,
  digits and underscores; the letters modelled are the ASCII ones.
\<close>

definition name_char :: "char \<Rightarrow> bool" where
  "name_char c = (let n = (of_char c :: nat) in
     (48 \<le> n \<and> n \<le> 57) \<or> (65 \<le> n \<and> n \<le> 90) \<or> (97 \<le> n \<and> n \<le> 122) \<or> n = 95)"

fun expand :: "nat \<Rightarrow> string \<Rightarrow> string \<Rightarrow> string" where
  "expand k [] m = []"
| "expand (Suc k) (c # cs) m = expand k cs m"
| "expand 0 (c # cs) m =
     (if c = CHR ''$'' then
        (case cs of
           [] \<Rightarrow> ''$''
         | d # ds \<Rightarrow>
            if d = CHR ''$'' then CHR ''$'' # expand 1 cs m
            else if d = CHR ''{'' then
              (let name = takeWhile name_char ds; rest = dropWhile name_char ds in
               if name = [] \<or> rest = [] then CHR ''$'' # expand 0 cs m
               else if hd rest = CHR ''}''
                 then (if name = ''0'' then m else []) @ expand (length name + 2) cs m
                 else CHR ''$'' # expand 0 cs m)
            else
              (let name = takeWhile name_char cs in
               if name = [] then CHR ''$'' # expand 0 cs m
               else (if name = ''0'' then m else []) @ expand (length name) cs m))
      else c # expand 0 cs m)"

definition ReplaceAllString :: "item list \<Rightarrow> string \<Rightarrow> string \<Rightarrow> string" where
  "ReplaceAllString pat src repl = ReplaceAll_with pat (expand 0 repl) 0 src"

text \<open>\<^verbatim>\<open>strings.ReplaceAll\<close> replaces a literal by a literal.\<close>

definition ReplaceAll :: "string \<Rightarrow> string \<Rightarrow> string \<Rightarrow> string" where
  "ReplaceAll s old new = ReplaceAll_with (lit old) (\<lambda>m. new) 0 s"

text \<open>
  \<open>find_first\<close> is the leftmost match: the bytes before it and its length.  \<open>FindString\<close> is
  the matched text, empty when there is none.
\<close>

fun find_first :: "item list \<Rightarrow> string \<Rightarrow> (nat \<times> nat) option" where
  "find_first pat [] = map_option (\<lambda>n. (0, n)) (match_here pat [])"
| "find_first pat (c # cs) =
     (case match_here pat (c # cs) of
        Some n \<Rightarrow> Some (0, n)
      | None \<Rightarrow> map_option (\<lambda>(i, n). (Suc i, n)) (find_first pat cs))"

definition FindString :: "item list \<Rightarrow> string \<Rightarrow> string" where
  "FindString pat s = (case find_first pat s of None \<Rightarrow> [] | Some (i, n) \<Rightarrow> take n (drop i s))"

section \<open>The phase transformer: \<^verbatim>\<open>FormatResponse\<close>\<close>

record ZaiResponseData =
  Phase :: string
  DeltaContent :: string
  EditContent :: string
  Done :: bool

text \<open>A \<^verbatim>\<open>*ZaiResponse\<close> may be nil, and so may its \<^verbatim>\<open>Data\<close> pointer.\<close>

type_synonym ZaiResponse = "ZaiResponseData option"

text \<open>
  The result of \<^verbatim>\<open>FormatResponse\<close> is a \<^verbatim>\<open>map[string]interface{}\<close> whose values are all strings,
  or nil: a list of key and value pairs, or \<open>None\<close>.
\<close>

type_synonym delta = "(string \<times> string) list"

text \<open>Lines 73 to 79: the tool-call wrappers.\<close>

definition glm_open :: "item list" where
  \<open>glm_open = Many is_nl # lit ''<glm_block'' @ Many not_gt
     # lit ''>{"type": "mcp", "data": {"metadata": {''\<close>

definition glm_result :: "item list" where
  \<open>glm_result = lit ''", "result": ""'' @ Many not_nl # lit ''</glm_block>''\<close>

definition glm_display :: "item list" where
  \<open>glm_display = lit ''null, "display_result": ""'' @ Many not_nl # lit ''</glm_block>''\<close>

definition tool_call_phase :: "string \<Rightarrow> string \<Rightarrow> string \<Rightarrow> string \<times> string" where
  \<open>tool_call_phase phaseBak phase content =
     (if phase = ''tool_call''
      then (phase, ReplaceAllString glm_result (ReplaceAllString glm_open content ''{'') '''')
      else if phase = ''other'' \<and> phaseBak = ''tool_call'' \<and> Contains content ''glm_block''
      then (''tool_call'', ReplaceAllString glm_display content ''"}'')
      else (phase, content))\<close>

text \<open>Lines 87 to 99: the details wrappers go, and what is left of them becomes reasoning tags.\<close>

definition details_block :: "item list" where
  "details_block = lit ''<details'' @ Few not_gt # lit ''>'' @ Few any_char # lit ''</details>''"

definition summary_block :: "item list" where
  "summary_block = Many is_nl # lit ''<summary>'' @ Few not_nl # lit ''</summary>'' @ [Many is_nl]"

definition details_open :: "item list" where
  "details_open = lit ''<details'' @ Many not_gt # lit ''>'' @ [Many is_nl]"

definition details_close :: "item list" where
  "details_close = Many is_nl # lit ''</details>''"

definition reasoning_tags :: "string \<Rightarrow> string \<Rightarrow> string" where
  "reasoning_tags phase content =
     (let content = ReplaceAllString details_block content '''';
          content = ReplaceAll content ''</thinking>'' '''';
          content = ReplaceAll content ''<Full>'' '''';
          content = ReplaceAll content ''</Full>'' '''';
          content = (if phase = ''thinking''
                     then ReplaceAllString summary_block content ''\<newline>\<newline>''
                     else content);
          content = ReplaceAllString details_open content ''<reasoning>\<newline>\<newline>''
      in ReplaceAllString details_close content ''\<newline>\<newline></reasoning>'')"

text \<open>
  Lines 101 to 123.  The pattern \<^verbatim>\<open>(?s)^(.*?</reasoning>)(.*)$\<close> matches exactly when the content
  holds a reasoning close: the lazy first group ends with the first one, and the second group
  is all the rest.  \<open>split_close\<close> gives the two groups.
\<close>

definition upto_close :: "item list" where
  "upto_close = Few any_char # lit ''</reasoning>''"

definition split_close :: "string \<Rightarrow> (string \<times> string) option" where
  "split_close content =
     map_option (\<lambda>n. (take n content, drop n content)) (match_here upto_close content)"

definition answer_pause :: "string \<Rightarrow> string \<Rightarrow> string \<Rightarrow> string" where
  "answer_pause phaseBak phase content =
     (if phase = ''answer'' then
        (case split_close content of
           None \<Rightarrow> content
         | Some (before, after) \<Rightarrow>
            if blank after then ''\<newline>\<newline></reasoning>''
            else if phaseBak = ''thinking''
              then ''\<newline>\<newline></reasoning>\<newline>\<newline>'' @ TrimLeft_nl after
            else if phaseBak = ''answer'' then ''''
            else content)
      else content)"

text \<open>Lines 126 to 182: the rewrite the configured mode asks for.\<close>

definition quote_marker :: "item list" where
  "quote_marker = lit ''\<newline>>'' @ [Opt re_space]"

definition reasoning_open :: "item list" where
  "reasoning_open = lit ''<reasoning>'' @ [Many is_nl]"

definition reasoning_close_nl :: "item list" where
  "reasoning_close_nl = Many is_nl # lit ''</reasoning>''"

definition summary_span :: "item list" where
  "summary_span = lit ''<summary>'' @ Few any_char # lit ''</summary>''"

definition duration_attr :: "item list" where
  \<open>duration_attr = lit ''duration="'' @ One re_digit # Many re_digit # lit ''"''\<close>

text \<open>
  The trailer of the details mode (lines 154 to 177).  The first group of
  \<^verbatim>\<open>duration="(\d+)"\<close> is the match without its first ten bytes and its last one.
\<close>

definition thoughts_of :: "string \<Rightarrow> string \<Rightarrow> string" where
  "thoughts_of phase content =
     (if phase = ''answer'' then
        (let before = (case match_here upto_close content of
                         None \<Rightarrow> []
                       | Some n \<Rightarrow> take n content);
             summaryMatch = FindString summary_span before
         in if summaryMatch = [] then
              (case find_first duration_attr before of
                 None \<Rightarrow> ''''
               | Some (i, n) \<Rightarrow>
                  ''\<newline>\<newline><summary>Thought for '' @ take (n - 11) (drop (i + 10) before)
                    @ '' seconds</summary>'')
            else ''\<newline>\<newline>'' @ summaryMatch)
      else '''')"

definition think_mode :: "string \<Rightarrow> string \<Rightarrow> string \<Rightarrow> string" where
  \<open>think_mode thinkMode phase content =
     (if thinkMode = ''reasoning'' then
        (let content = (if phase = ''thinking''
                        then ReplaceAllString quote_marker content ''\<newline>'' else content);
             content = ReplaceAllString summary_block content '''';
             content = ReplaceAllString reasoning_open content ''''
         in ReplaceAllString reasoning_close_nl content '''')
      else if thinkMode = ''think'' then
        (let content = (if phase = ''thinking''
                        then ReplaceAllString quote_marker content ''\<newline>'' else content);
             content = ReplaceAllString summary_block content '''';
             content = ReplaceAll content ''<reasoning>'' ''<think>''
         in ReplaceAll content ''</reasoning>'' ''</think>'')
      else if thinkMode = ''strip'' then
        (let content = ReplaceAllString summary_block content '''';
             content = ReplaceAllString reasoning_open content ''''
         in ReplaceAllString (lit ''</reasoning>'') content '''')
      else if thinkMode = ''details'' then
        (let content = (if phase = ''thinking''
                        then ReplaceAllString quote_marker content ''\<newline>'' else content);
             content = ReplaceAll content ''<reasoning>'' ''<details type="reasoning" open><div>'';
             thoughts = thoughts_of phase content
         in ReplaceAllString (lit ''</reasoning>'') content (''</div>'' @ thoughts @ ''</details>''))
      else ReplaceAllString (lit ''</reasoning>'') content ''</reasoning>\<newline>\<newline>'')\<close>

text \<open>Lines 187 to 220: the map handed to the caller.\<close>

definition emit :: "string \<Rightarrow> string \<Rightarrow> string \<Rightarrow> string \<Rightarrow> delta option" where
  "emit thinkMode phase content responseType =
     (if phase = ''thinking'' \<and> thinkMode = ''reasoning'' then
        (if responseType = ''Anthropic''
         then Some [(''type'', ''thinking_delta''), (''thinking'', content)]
         else Some [(''role'', ''assistant''), (''reasoning_content'', content)])
      else if phase = ''tool_call'' then Some [(''tool_call'', content)]
      else if content = [] then None
      else if responseType = ''Anthropic''
        then Some [(''type'', ''text_delta''), (''text'', content)]
        else Some [(''role'', ''assistant''), (''content'', content)])"

text \<open>
  \<open>pre_mode\<close> is lines 87 to 123, the content as it enters the switch on the mode, and
  \<open>rewrite\<close> is lines 86 to 183.  \<open>FormatResponse\<close> takes the configured mode and the package
  variable \<^verbatim>\<open>phaseBak\<close>, and returns the map together with the new value of \<^verbatim>\<open>phaseBak\<close>.
\<close>

definition pre_mode :: "string \<Rightarrow> string \<Rightarrow> string \<Rightarrow> string" where
  "pre_mode phaseBak phase content = answer_pause phaseBak phase (reasoning_tags phase content)"

definition rewrite :: "string \<Rightarrow> string \<Rightarrow> string \<Rightarrow> string \<Rightarrow> string" where
  "rewrite thinkMode phaseBak phase content =
     (if phase = ''thinking'' \<or> (phase = ''answer'' \<and> Contains content ''summary>'')
      then think_mode thinkMode phase (pre_mode phaseBak phase content)
      else content)"

definition FormatResponse ::
  "string \<Rightarrow> string \<Rightarrow> ZaiResponse option \<Rightarrow> string \<Rightarrow> delta option \<times> string" where
  "FormatResponse thinkMode phaseBak data responseType =
     (case data of
        None \<Rightarrow> (None, phaseBak)
      | Some None \<Rightarrow> (None, phaseBak)
      | Some (Some d) \<Rightarrow>
         (let phase = (if Phase d = [] then ''other'' else Phase d);
              content = (if DeltaContent d = [] then EditContent d else DeltaContent d)
          in if content = [] then (None, phaseBak)
             else (case tool_call_phase phaseBak phase content of
                     (phase, content) \<Rightarrow>
                       (emit thinkMode phase (rewrite thinkMode phaseBak phase content) responseType,
                        phase))))"

text \<open>The package variable \<^verbatim>\<open>phaseBak\<close> starts as \<^verbatim>\<open>"thinking"\<close> (line 17).\<close>

definition phaseBak_init :: string where
  "phaseBak_init = ''thinking''"

section \<open>Properties of the phase transformer\<close>

subsection \<open>The lazy match up to the first close\<close>

lemma match_here_lit: "match_here (lit L) s = (if HasPrefix s L then Some (length L) else None)"
proof (induction L arbitrary: s)
  case Nil
  show ?case by (simp add: lit_def HasPrefix_def)
next
  case (Cons a L)
  have step: "lit (a # L) = One (\<lambda>x. x = a) # lit L" by (simp add: lit_def)
  show ?case
  proof (cases s)
    case Nil
    then show ?thesis by (simp add: step HasPrefix_def)
  next
    case (Cons c cs)
    then show ?thesis using Cons.IH [of cs] by (auto simp: step HasPrefix_def)
  qed
qed

lemma HasPrefix_append: "HasPrefix (L @ r) L"
  by (simp add: HasPrefix_def)

lemma Contains_HasPrefix: "HasPrefix s L \<Longrightarrow> Contains s L"
  by (cases s) (auto simp: HasPrefix_def)

text \<open>
  When \<open>L\<close> first occurs in the input behind \<open>pre\<close>, the lazy star followed by \<open>L\<close> matches
  \<open>pre\<close> and that occurrence, and nothing more.
\<close>

lemma match_here_first:
  assumes "L \<noteq> []" and "\<not> Contains (pre @ butlast L) L"
  shows "match_here (Few any_char # lit L) (pre @ L @ rest) = Some (length pre + length L)"
  using assms(2)
proof (induction pre)
  case Nil
  obtain c cs where s: "L @ rest = c # cs" using assms(1) by (cases L) auto
  have "match_here (lit L) (L @ rest) = Some (length L)"
    by (simp add: match_here_lit HasPrefix_append)
  then show ?case using s by simp
next
  case (Cons p ps)
  have no: "\<not> HasPrefix (p # ps @ L @ rest) L"
  proof
    assume h: "HasPrefix (p # ps @ L @ rest) L"
    have tk: "take n (X @ Y) = take n X" if "n \<le> length X" for n and X Y :: string
      using that by simp
    have len: "length L \<le> length ((p # ps) @ butlast L)" by simp
    have "take (length L) ((p # ps) @ butlast L)
        = take (length L) (((p # ps) @ butlast L) @ ([last L] @ rest))"
      by (rule tk [OF len, symmetric])
    also have "((p # ps) @ butlast L) @ ([last L] @ rest) = p # ps @ L @ rest"
      using assms(1) by simp
    finally have "HasPrefix ((p # ps) @ butlast L) L" using h by (simp add: HasPrefix_def)
    then show False using Cons.prems Contains_HasPrefix by blast
  qed
  have tl: "\<not> Contains (ps @ butlast L) L" using Cons.prems by simp
  have "match_here (lit L) (p # ps @ L @ rest) = None" using no by (simp add: match_here_lit)
  then show ?case using Cons.IH [OF tl] by (simp add: any_char_def)
qed

lemma split_close_first:
  assumes "\<not> Contains (pre @ ''</reasoning'') ''</reasoning>''"
  shows "split_close (pre @ ''</reasoning>'' @ rest) = Some (pre @ ''</reasoning>'', rest)"
proof -
  have "match_here upto_close (pre @ ''</reasoning>'' @ rest)
      = Some (length pre + length ''</reasoning>'')"
    unfolding upto_close_def using assms by (intro match_here_first) simp_all
  then show ?thesis by (simp add: split_close_def)
qed

subsection \<open>What an event of a given phase goes through\<close>

lemma FormatResponse_answer:
  assumes "Phase d = ''answer''" and "(if DeltaContent d = [] then EditContent d else DeltaContent d) = content" and "content \<noteq> []"
    and "Contains content ''summary>''"
  shows "FormatResponse thinkMode phaseBak (Some (Some d)) responseType =
         (emit thinkMode ''answer''
            (think_mode thinkMode ''answer'' (pre_mode phaseBak ''answer'' content)) responseType,
          ''answer'')"
  using assms by (simp add: FormatResponse_def tool_call_phase_def rewrite_def Let_def)

lemma FormatResponse_thinking:
  assumes "Phase d = ''thinking''" and "(if DeltaContent d = [] then EditContent d else DeltaContent d) = content" and "content \<noteq> []"
  shows "FormatResponse thinkMode phaseBak (Some (Some d)) responseType =
         (emit thinkMode ''thinking''
            (think_mode thinkMode ''thinking'' (reasoning_tags ''thinking'' content)) responseType,
          ''thinking'')"
  using assms
  by (simp add: FormatResponse_def tool_call_phase_def rewrite_def Let_def pre_mode_def
      answer_pause_def)

lemma pre_mode_close:
  assumes "reasoning_tags ''answer'' content = pre @ ''</reasoning>'' @ rest"
    and "\<not> Contains (pre @ ''</reasoning'') ''</reasoning>''"
  shows "pre_mode phaseBak ''answer'' content =
           (if blank rest then ''\<newline>\<newline></reasoning>''
            else if phaseBak = ''thinking''
              then ''\<newline>\<newline></reasoning>\<newline>\<newline>'' @ TrimLeft_nl rest
            else if phaseBak = ''answer'' then []
            else reasoning_tags ''answer'' content)"
proof -
  have "split_close (reasoning_tags ''answer'' content) = Some (pre @ ''</reasoning>'', rest)"
    using split_close_first [OF assms(2)] assms(1) by simp
  then show ?thesis by (simp add: pre_mode_def answer_pause_def)
qed

subsection \<open>An event without content\<close>

text \<open>
  C9.  An event whose \<^verbatim>\<open>delta_content\<close> and \<^verbatim>\<open>edit_content\<close> are both empty gives no output and
  leaves \<^verbatim>\<open>phaseBak\<close> as it was, whatever its phase and whatever the mode: the function returns
  at line 67, before the assignment of line 185.
\<close>

theorem empty_event_keeps_phase:
  assumes "DeltaContent d = []" and "EditContent d = []"
  shows "FormatResponse thinkMode phaseBak (Some (Some d)) responseType = (None, phaseBak)"
  using assms by (simp add: FormatResponse_def)

theorem empty_event_keeps_phase_witness:
  "FormatResponse ''details'' ''tool_call''
     (Some (Some \<lparr>Phase = ''answer'', DeltaContent = [], EditContent = [], Done = False\<rparr>))
     ''OpenAI''
   = (None, ''tool_call'')"
  using empty_event_keeps_phase
    [of "\<lparr>Phase = ''answer'', DeltaContent = [], EditContent = [], Done = False\<rparr>"
        "''details''" "''tool_call''" "''OpenAI''"]
  by simp

subsection \<open>An answer event that closes the reasoning\<close>

text \<open>
  C1, as the code has it.  Take an answer event whose content holds \<^verbatim>\<open>summary>\<close> and whose
  content, after the tags are normalised, is \<open>pre\<close>, the first \<^verbatim>\<open></reasoning>\<close>, and \<open>rest\<close>.
  Before the rewrite of the mode the content is: two line feeds and the close when \<open>rest\<close>
  is white space only; otherwise, after a thinking event, two line feeds, the close, two line
  feeds and \<open>rest\<close> without its leading line feeds; after an answer event, nothing; after
  an event of another phase, the normalised content unchanged.  That content then goes through
  the rewrite of the mode, whichever the mode is.
\<close>

theorem answer_close_rewrite:
  assumes "Phase d = ''answer''" and "(if DeltaContent d = [] then EditContent d else DeltaContent d) = content"
    and "Contains content ''summary>''"
    and "reasoning_tags ''answer'' content = pre @ ''</reasoning>'' @ rest"
    and "\<not> Contains (pre @ ''</reasoning'') ''</reasoning>''"
  shows "pre_mode phaseBak ''answer'' content =
           (if blank rest then ''\<newline>\<newline></reasoning>''
            else if phaseBak = ''thinking''
              then ''\<newline>\<newline></reasoning>\<newline>\<newline>'' @ TrimLeft_nl rest
            else if phaseBak = ''answer'' then []
            else reasoning_tags ''answer'' content)
         \<and> FormatResponse thinkMode phaseBak (Some (Some d)) responseType =
           (emit thinkMode ''answer''
              (think_mode thinkMode ''answer'' (pre_mode phaseBak ''answer'' content)) responseType,
            ''answer'')"
proof -
  have ne: "content \<noteq> []" using assms(3) by (cases content) simp_all
  show ?thesis
    using pre_mode_close [OF assms(4) assms(5)]
      FormatResponse_answer [OF assms(1) assms(2) ne assms(3)]
    by simp
qed

theorem answer_close_rewrite_witness:
  "Contains ''summary></details>x'' ''summary>''
   \<and> reasoning_tags ''answer'' ''summary></details>x''
       = ''summary>\<newline>\<newline>'' @ ''</reasoning>'' @ ''x''
   \<and> pre_mode ''thinking'' ''answer'' ''summary></details>x''
       = ''\<newline>\<newline></reasoning>\<newline>\<newline>x''
   \<and> FormatResponse ''think'' ''thinking''
        (Some (Some \<lparr>Phase = ''answer'', DeltaContent = ''summary></details>x'',
                      EditContent = [], Done = False\<rparr>)) ''OpenAI''
       = (emit ''think'' ''answer''
            (think_mode ''think'' ''answer''
               (pre_mode ''thinking'' ''answer'' ''summary></details>x'')) ''OpenAI'',
          ''answer'')"
proof -
  let ?d = "\<lparr>Phase = ''answer'', DeltaContent = ''summary></details>x'',
              EditContent = [], Done = False\<rparr>"
  have h1: "Phase ?d = ''answer''" by simp
  have h2: "(if DeltaContent ?d = [] then EditContent ?d else DeltaContent ?d)
      = ''summary></details>x''" by simp
  have h3: "Contains ''summary></details>x'' ''summary>''" by code_simp
  have h4: "reasoning_tags ''answer'' ''summary></details>x''
      = ''summary>\<newline>\<newline>'' @ ''</reasoning>'' @ ''x''" by code_simp
  have h5: "\<not> Contains (''summary>\<newline>\<newline>'' @ ''</reasoning'') ''</reasoning>''" by code_simp
  have b: "\<not> blank ''x''" by code_simp
  have t: "TrimLeft_nl ''x'' = ''x''" by code_simp
  note r = answer_close_rewrite [OF h1 h2 h3 h4 h5, of "''thinking''" "''think''" "''OpenAI''"]
  have "pre_mode ''thinking'' ''answer'' ''summary></details>x''
      = ''\<newline>\<newline></reasoning>\<newline>\<newline>x''"
    using r b t by simp
  then show ?thesis using h3 h4 r by blast
qed

text \<open>
  The claim as it is written fails: with \<^verbatim>\<open>x\<close> behind the close and a thinking event before,
  the content is not the close followed at once by \<^verbatim>\<open>x\<close>, with or without the two line feeds
  the code puts before the close; and with nothing behind the close the content is not the
  bare close.
\<close>

theorem answer_close_rewrite_counterexample:
  "pre_mode ''thinking'' ''answer'' ''summary></details>x''
     = ''\<newline>\<newline></reasoning>\<newline>\<newline>x''
   \<and> pre_mode ''thinking'' ''answer'' ''summary></details>x'' \<noteq> ''</reasoning>'' @ ''x''
   \<and> pre_mode ''thinking'' ''answer'' ''summary></details>x''
       \<noteq> ''\<newline>\<newline></reasoning>'' @ ''x''
   \<and> pre_mode ''thinking'' ''answer'' ''summary></details>'' = ''\<newline>\<newline></reasoning>''
   \<and> pre_mode ''thinking'' ''answer'' ''summary></details>'' \<noteq> ''</reasoning>''"
  by code_simp

subsection \<open>The blockquote marker in a thinking event\<close>

text \<open>A match needs, for each class the pattern asks for once, a byte of that class.\<close>

lemma match_here_needs:
  "match_here pat s = Some n \<Longrightarrow> One p \<in> set pat \<Longrightarrow> \<exists>c \<in> set s. p c"
proof (induction pat s arbitrary: n rule: match_here.induct)
  case (1 s)
  then show ?case by simp
next
  case (2 q r)
  then show ?case by simp
next
  case (3 q r c cs)
  then show ?case by (auto split: if_splits)
next
  case (4 q r)
  then show ?case by auto
next
  case (5 q r c cs)
  then show ?case by (auto split: if_splits option.splits)
next
  case (6 q r)
  then show ?case by auto
next
  case (7 q r c cs)
  then show ?case by (auto split: if_splits option.splits)
next
  case (8 q r)
  then show ?case by auto
next
  case (9 q r c cs)
  then show ?case by (auto split: if_splits option.splits)
qed

lemma ReplaceAll_with_none:
  assumes "One p \<in> set pat" and "\<forall>c \<in> set s. \<not> p c"
  shows "ReplaceAll_with pat f k s = drop k s"
  using assms(2)
proof (induction s arbitrary: k)
  case Nil
  show ?case by simp
next
  case (Cons c cs)
  show ?case
  proof (cases k)
    case 0
    have "match_here pat (c # cs) = None"
    proof (cases "match_here pat (c # cs)")
      case None
      then show ?thesis .
    next
      case (Some n)
      then show ?thesis using match_here_needs [OF Some assms(1)] Cons.prems by blast
    qed
    then show ?thesis using 0 Cons by simp
  next
    case (Suc j)
    then show ?thesis using Cons by simp
  qed
qed

text \<open>A delta without \<^verbatim>\<open><\<close> holds no tag, and no pattern that asks for a tag changes it.\<close>

definition lt :: "char \<Rightarrow> bool" where
  "lt x = (x = CHR ''<'')"

lemma lit_lt: "lit (CHR ''<'' # L) = One lt # lit L"
  by (simp add: lit_def lt_def [abs_def])

lemma no_tag_patterns:
  assumes "CHR ''<'' \<notin> set s"
  shows "ReplaceAllString details_block s r = s"
    and "ReplaceAllString summary_block s r = s"
    and "ReplaceAllString details_open s r = s"
    and "ReplaceAllString details_close s r = s"
    and "ReplaceAllString reasoning_open s r = s"
    and "ReplaceAllString reasoning_close_nl s r = s"
    and "ReplaceAll s ''</thinking>'' r = s"
    and "ReplaceAll s ''<Full>'' r = s"
    and "ReplaceAll s ''</Full>'' r = s"
proof -
  have no: "\<forall>c \<in> set s. \<not> lt c" using assms by (auto simp: lt_def)
  show "ReplaceAllString details_block s r = s"
    unfolding ReplaceAllString_def details_block_def lit_lt
    by (subst ReplaceAll_with_none [where p = lt]) (simp_all add: no)
  show "ReplaceAllString summary_block s r = s"
    unfolding ReplaceAllString_def summary_block_def lit_lt
    by (subst ReplaceAll_with_none [where p = lt]) (simp_all add: no)
  show "ReplaceAllString details_open s r = s"
    unfolding ReplaceAllString_def details_open_def lit_lt
    by (subst ReplaceAll_with_none [where p = lt]) (simp_all add: no)
  show "ReplaceAllString details_close s r = s"
    unfolding ReplaceAllString_def details_close_def lit_lt
    by (subst ReplaceAll_with_none [where p = lt]) (simp_all add: no)
  show "ReplaceAllString reasoning_open s r = s"
    unfolding ReplaceAllString_def reasoning_open_def lit_lt
    by (subst ReplaceAll_with_none [where p = lt]) (simp_all add: no)
  show "ReplaceAllString reasoning_close_nl s r = s"
    unfolding ReplaceAllString_def reasoning_close_nl_def lit_lt
    by (subst ReplaceAll_with_none [where p = lt]) (simp_all add: no)
  show "ReplaceAll s ''</thinking>'' r = s"
    unfolding ReplaceAll_def lit_lt
    by (subst ReplaceAll_with_none [where p = lt]) (simp_all add: no)
  show "ReplaceAll s ''<Full>'' r = s"
    unfolding ReplaceAll_def lit_lt
    by (subst ReplaceAll_with_none [where p = lt]) (simp_all add: no)
  show "ReplaceAll s ''</Full>'' r = s"
    unfolding ReplaceAll_def lit_lt
    by (subst ReplaceAll_with_none [where p = lt]) (simp_all add: no)
qed

lemma ReplaceAll_with_set:
  "set (ReplaceAll_with pat (\<lambda>m. r) k s) \<subseteq> set r \<union> set s"
proof (induction s arbitrary: k)
  case Nil
  show ?case by simp
next
  case (Cons c cs)
  show ?case
  proof (cases k)
    case 0
    then show ?thesis using Cons [of 0] Cons
      by (auto split: option.splits nat.splits)
  next
    case (Suc j)
    then show ?thesis using Cons [of j] by auto
  qed
qed

lemma expand_newline: "expand 0 ''\<newline>'' = (\<lambda>m. ''\<newline>'')"
  by (rule ext) simp

lemma quote_marker_no_tag:
  assumes "CHR ''<'' \<notin> set s"
  shows "CHR ''<'' \<notin> set (ReplaceAllString quote_marker s ''\<newline>'')"
proof -
  have "set (ReplaceAllString quote_marker s ''\<newline>'') \<subseteq> set ''\<newline>'' \<union> set s"
    unfolding ReplaceAllString_def expand_newline by (rule ReplaceAll_with_set)
  then show ?thesis using assms by auto
qed

text \<open>Where the input does not hold the literal a pattern begins with, nothing is replaced.\<close>

lemma match_here_lit_prefix:
  "match_here (lit L @ r) s = Some n \<Longrightarrow> HasPrefix s L"
proof (induction L arbitrary: s n)
  case Nil
  show ?case by (simp add: HasPrefix_def)
next
  case (Cons a L)
  have step: "lit (a # L) @ r = One (\<lambda>x. x = a) # lit L @ r" by (simp add: lit_def)
  show ?case
  proof (cases s)
    case Nil
    then show ?thesis using Cons.prems by (simp add: step)
  next
    case (Cons c cs)
    then show ?thesis using Cons.prems Cons.IH [of cs]
      by (auto simp: step HasPrefix_def split: if_splits)
  qed
qed

lemma ReplaceAll_with_absent:
  assumes "\<not> Contains s L"
  shows "ReplaceAll_with (lit L @ r) f k s = drop k s"
  using assms
proof (induction s arbitrary: k)
  case Nil
  show ?case by simp
next
  case (Cons c cs)
  have np: "\<not> HasPrefix (c # cs) L" and nc: "\<not> Contains cs L" using Cons.prems by simp_all
  show ?case
  proof (cases k)
    case 0
    have "match_here (lit L @ r) (c # cs) = None"
    proof (cases "match_here (lit L @ r) (c # cs)")
      case None
      then show ?thesis .
    next
      case (Some n)
      then show ?thesis using match_here_lit_prefix [OF Some] np by simp
    qed
    then show ?thesis using 0 Cons.IH [OF nc] by simp
  next
    case (Suc j)
    then show ?thesis using Cons.IH [OF nc] by simp
  qed
qed

lemma quote_marker_absent:
  assumes "\<not> Contains s ''\<newline>>''"
  shows "ReplaceAllString quote_marker s ''\<newline>'' = s"
  unfolding ReplaceAllString_def quote_marker_def
  by (subst ReplaceAll_with_absent [OF assms]) simp

text \<open>
  C3, as the code has it.  In the reasoning mode, a thinking event whose delta holds no \<^verbatim>\<open><\<close>
  goes out as reasoning content, after every match of the pattern \<^verbatim>\<open>\n>\s?\<close> of line 129 (a line
  feed, the marker, and a white-space byte if one follows) has been replaced by a line feed.
  The marker is taken away only behind a line feed: a delta that does not hold \<^verbatim>\<open>"\n>"\<close> goes out
  unchanged.
\<close>

theorem thinking_quote_marker:
  assumes "Phase d = ''thinking''"
    and "(if DeltaContent d = [] then EditContent d else DeltaContent d) = content"
    and "content \<noteq> []"
    and "CHR ''<'' \<notin> set content"
  shows "FormatResponse ''reasoning'' phaseBak (Some (Some d)) responseType =
           (Some (if responseType = ''Anthropic''
                  then [(''type'', ''thinking_delta''),
                        (''thinking'', ReplaceAllString quote_marker content ''\<newline>'')]
                  else [(''role'', ''assistant''),
                        (''reasoning_content'', ReplaceAllString quote_marker content ''\<newline>'')]),
            ''thinking'')
         \<and> (\<not> Contains content ''\<newline>>''
              \<longrightarrow> ReplaceAllString quote_marker content ''\<newline>'' = content)"
proof -
  have t: "reasoning_tags ''thinking'' content = content"
    by (simp add: reasoning_tags_def no_tag_patterns [OF assms(4)])
  have m: "think_mode ''reasoning'' ''thinking'' content
      = ReplaceAllString quote_marker content ''\<newline>''"
    by (simp add: think_mode_def no_tag_patterns [OF quote_marker_no_tag [OF assms(4)]])
  show ?thesis
    using FormatResponse_thinking [OF assms(1) assms(2) assms(3)] quote_marker_absent
    by (simp add: t m emit_def)
qed

text \<open>
  The two deltas of the claim: \<^verbatim>\<open>"> hello\n"\<close>, whose marker stands first, goes out as it is,
  and \<^verbatim>\<open>"\n> hello\n"\<close> goes out as \<^verbatim>\<open>"\nhello\n"\<close>.
\<close>

theorem thinking_quote_marker_witness:
  "CHR ''<'' \<notin> set ''> hello\<newline>''
   \<and> \<not> Contains ''> hello\<newline>'' ''\<newline>>''
   \<and> FormatResponse ''reasoning'' ''thinking''
     (Some (Some \<lparr>Phase = ''thinking'', DeltaContent = ''> hello\<newline>'',
                   EditContent = [], Done = False\<rparr>)) ''OpenAI''
     = (Some [(''role'', ''assistant''), (''reasoning_content'', ''> hello\<newline>'')], ''thinking'')
   \<and> CHR ''<'' \<notin> set ''\<newline>> hello\<newline>''
   \<and> FormatResponse ''reasoning'' ''thinking''
     (Some (Some \<lparr>Phase = ''thinking'', DeltaContent = ''\<newline>> hello\<newline>'',
                   EditContent = [], Done = False\<rparr>)) ''Anthropic''
     = (Some [(''type'', ''thinking_delta''), (''thinking'', ''\<newline>hello\<newline>'')], ''thinking'')"
proof -
  let ?d1 = "\<lparr>Phase = ''thinking'', DeltaContent = ''> hello\<newline>'',
               EditContent = [], Done = False\<rparr>"
  let ?d2 = "\<lparr>Phase = ''thinking'', DeltaContent = ''\<newline>> hello\<newline>'',
               EditContent = [], Done = False\<rparr>"
  have p1: "Phase ?d1 = ''thinking''" and p2: "Phase ?d2 = ''thinking''" by simp_all
  have c1: "(if DeltaContent ?d1 = [] then EditContent ?d1 else DeltaContent ?d1) = ''> hello\<newline>''"
    by simp
  have c2: "(if DeltaContent ?d2 = [] then EditContent ?d2 else DeltaContent ?d2)
      = ''\<newline>> hello\<newline>''"
    by simp
  have n1: "''> hello\<newline>'' \<noteq> []" and n2: "''\<newline>> hello\<newline>'' \<noteq> []" by simp_all
  have l1: "CHR ''<'' \<notin> set ''> hello\<newline>''" by simp
  have l2: "CHR ''<'' \<notin> set ''\<newline>> hello\<newline>''" by simp
  have a1: "\<not> Contains ''> hello\<newline>'' ''\<newline>>''" by code_simp
  have r2: "ReplaceAllString quote_marker ''\<newline>> hello\<newline>'' ''\<newline>'' = ''\<newline>hello\<newline>''" by code_simp
  note t1 = thinking_quote_marker [OF p1 c1 n1 l1, of "''thinking''" "''OpenAI''"]
  note t2 = thinking_quote_marker [OF p2 c2 n2 l2, of "''thinking''" "''Anthropic''"]
  have e1: "FormatResponse ''reasoning'' ''thinking'' (Some (Some ?d1)) ''OpenAI''
     = (Some [(''role'', ''assistant''), (''reasoning_content'', ''> hello\<newline>'')], ''thinking'')"
    using t1 a1 by simp
  have e2: "FormatResponse ''reasoning'' ''thinking'' (Some (Some ?d2)) ''Anthropic''
     = (Some [(''type'', ''thinking_delta''), (''thinking'', ''\<newline>hello\<newline>'')], ''thinking'')"
    using t2 r2 by simp
  show ?thesis
    by (intro conjI l1 a1 e1 l2 e2)
qed

text \<open>
  The claim as it is written fails: the delta \<^verbatim>\<open>"> hello\n"\<close> does not go out as \<^verbatim>\<open>"hello\n"\<close>.
\<close>

theorem thinking_quote_marker_counterexample:
  "FormatResponse ''reasoning'' ''thinking''
     (Some (Some \<lparr>Phase = ''thinking'', DeltaContent = ''> hello\<newline>'',
                   EditContent = [], Done = False\<rparr>)) ''OpenAI''
     \<noteq> (Some [(''role'', ''assistant''), (''reasoning_content'', ''hello\<newline>'')], ''thinking'')
   \<and> FormatResponse ''reasoning'' ''thinking''
     (Some (Some \<lparr>Phase = ''thinking'', DeltaContent = ''> hello\<newline>'',
                   EditContent = [], Done = False\<rparr>)) ''Anthropic''
     \<noteq> (Some [(''type'', ''thinking_delta''), (''thinking'', ''hello\<newline>'')], ''thinking'')"
  by code_simp

subsection \<open>The trailer of the details mode\<close>

text \<open>
  C2 fails on the code.  In the details mode, when an answer event closes the reasoning and
  only white space follows the close, line 119 has already replaced the content by the bare
  close when line 157 looks in it for a summary or a duration: nothing is found, and the close
  becomes \<^verbatim>\<open></div></details>\<close> without a trailer, whatever stood before it.
\<close>

theorem details_trailer_lost:
  assumes "Phase d = ''answer''" and "(if DeltaContent d = [] then EditContent d else DeltaContent d) = content"
    and "Contains content ''summary>''"
    and "reasoning_tags ''answer'' content = pre @ ''</reasoning>'' @ rest"
    and "\<not> Contains (pre @ ''</reasoning'') ''</reasoning>''"
    and "blank rest"
  shows "FormatResponse ''details'' phaseBak (Some (Some d)) ''OpenAI''
         = (Some [(''role'', ''assistant''), (''content'', ''\<newline>\<newline></div></details>'')], ''answer'')"
proof -
  have ne: "content \<noteq> []" using assms(3) by (cases content) simp_all
  have p: "pre_mode phaseBak ''answer'' content = ''\<newline>\<newline></reasoning>''"
    using pre_mode_close [OF assms(4) assms(5)] assms(6) by simp
  have m: "think_mode ''details'' ''answer'' ''\<newline>\<newline></reasoning>''
      = ''\<newline>\<newline></div></details>''"
    by code_simp
  show ?thesis
    using FormatResponse_answer [OF assms(1) assms(2) ne assms(3)]
    by (simp add: p m emit_def)
qed

text \<open>
  A thinking event, then an answer event with \<^verbatim>\<open>duration="7"\<close> before the close and a line feed
  after it: the output of the second event has no summary.
\<close>

theorem details_trailer_lost_witness:
  \<open>Contains ''true" duration="7" view="">\<newline></summary>\<newline>> thought\<newline></details>\<newline>'' ''summary>''
   \<and> reasoning_tags ''answer''
        ''true" duration="7" view="">\<newline></summary>\<newline>> thought\<newline></details>\<newline>''
      = ''true" duration="7" view="">\<newline></summary>\<newline>> thought\<newline>\<newline>'' @ ''</reasoning>'' @ ''\<newline>''
   \<and> blank ''\<newline>''
   \<and> FormatResponse ''details''
     (snd (FormatResponse ''details'' phaseBak_init
        (Some (Some \<lparr>Phase = ''thinking'', DeltaContent = ''\<newline>> thought'',
                      EditContent = [], Done = False\<rparr>)) ''OpenAI''))
     (Some (Some \<lparr>Phase = ''answer'', DeltaContent = [],
        EditContent = ''true" duration="7" view="">\<newline></summary>\<newline>> thought\<newline></details>\<newline>'',
        Done = False\<rparr>)) ''OpenAI''
   = (Some [(''role'', ''assistant''), (''content'', ''\<newline>\<newline></div></details>'')], ''answer'')\<close>
proof -
  let ?c = \<open>''true" duration="7" view="">\<newline></summary>\<newline>> thought\<newline></details>\<newline>''\<close>
  let ?pre = \<open>''true" duration="7" view="">\<newline></summary>\<newline>> thought\<newline>\<newline>''\<close>
  let ?d = "\<lparr>Phase = ''answer'', DeltaContent = [], EditContent = ?c, Done = False\<rparr>"
  have h1: "Phase ?d = ''answer''" by simp
  have h2: "(if DeltaContent ?d = [] then EditContent ?d else DeltaContent ?d) = ?c" by simp
  have h3: "Contains ?c ''summary>''" by code_simp
  have h4: "reasoning_tags ''answer'' ?c = ?pre @ ''</reasoning>'' @ ''\<newline>''" by code_simp
  have h5: "\<not> Contains (?pre @ ''</reasoning'') ''</reasoning>''" by code_simp
  have h6: "blank ''\<newline>''" by code_simp
  show ?thesis
    using h3 h4 h6 details_trailer_lost [OF h1 h2 h3 h4 h5 h6] by blast
qed

section \<open>Go values and JSON\<close>

text \<open>
  What an \<^verbatim>\<open>interface{}\<close> holds in this program: the values \<^verbatim>\<open>encoding/json\<close> decodes into
  (nil, \<^verbatim>\<open>bool\<close>, \<^verbatim>\<open>float64\<close>, \<^verbatim>\<open>string\<close>, \<^verbatim>\<open>[]interface{}\<close>, \<^verbatim>\<open>map[string]interface{}\<close>), and the
  \<^verbatim>\<open>[]map[string]interface{}\<close> that \<^verbatim>\<open>FormatRequest\<close> builds itself, which is a different dynamic
  type from \<^verbatim>\<open>[]interface{}\<close>: a type assertion to one fails on the other.  A number is kept as
  its JSON text.  A map is a list of keys and values with no key twice; \<open>upd\<close> is assignment
  to a key.
\<close>

datatype gval = VNil | VBool bool | VNum string | VStr string | VList "gval list"
  | VMap "(string \<times> gval) list" | VMaps "(string \<times> gval) list list"

fun upd :: "string \<Rightarrow> 'v \<Rightarrow> (string \<times> 'v) list \<Rightarrow> (string \<times> 'v) list" where
  "upd k v [] = [(k, v)]"
| "upd k v ((k', v') # m) = (if k = k' then (k, v) # m else (k', v') # upd k v m)"

text \<open>
  \<^verbatim>\<open>json.Unmarshal\<close>, as a recursive-descent parser of the JSON grammar.  White space is space,
  tab, carriage return and line feed; a string may not hold a control character; \<^verbatim>\<open>\uXXXX\<close>
  escapes are decoded to UTF-8, a surrogate pair to one rune and a lone surrogate to U+FFFD;
  a key given twice keeps its last value.  Bytes outside ASCII are copied as they are (the
  decoder does so with well-formed UTF-8), and neither the range of \<^verbatim>\<open>float64\<close> nor the nesting
  limit of the decoder is modelled.  The parsers of values, elements and members call each
  other; their first argument bounds the number of calls, and a parse that would need more
  ends in \<open>OutOfFuel\<close>, which is an error of its own, apart from the syntax error.
\<close>

datatype jerr = SyntaxError | UnmarshalTypeError | OutOfFuel

definition is_ws :: "char \<Rightarrow> bool" where
  "is_ws c = (c = CHR 0x20 \<or> c = CHR 0x09 \<or> c = CHR 0x0D \<or> c = CHR 0x0A)"

definition skip_ws :: "string \<Rightarrow> string" where
  "skip_ws s = dropWhile is_ws s"

definition hexval :: "char \<Rightarrow> nat option" where
  "hexval c = (let n = (of_char c :: nat) in
     if 48 \<le> n \<and> n \<le> 57 then Some (n - 48)
     else if 97 \<le> n \<and> n \<le> 102 then Some (n - 87)
     else if 65 \<le> n \<and> n \<le> 70 then Some (n - 55)
     else None)"

definition u4 :: "char \<Rightarrow> char \<Rightarrow> char \<Rightarrow> char \<Rightarrow> nat option" where
  "u4 a b c d =
     (case (hexval a, hexval b, hexval c, hexval d) of
        (Some w, Some x, Some y, Some z) \<Rightarrow> Some (((w * 16 + x) * 16 + y) * 16 + z)
      | _ \<Rightarrow> None)"

definition utf8_encode :: "nat \<Rightarrow> string" where
  "utf8_encode n =
     (if n < 0x80 then [char_of n]
      else if n < 0x800 then [char_of (0xC0 + n div 64), char_of (0x80 + n mod 64)]
      else if n < 0x10000 then
        [char_of (0xE0 + n div 4096), char_of (0x80 + n div 64 mod 64), char_of (0x80 + n mod 64)]
      else
        [char_of (0xF0 + n div 262144), char_of (0x80 + n div 4096 mod 64),
         char_of (0x80 + n div 64 mod 64), char_of (0x80 + n mod 64)])"

definition unescape :: "char \<Rightarrow> char option" where
  "unescape e =
     (if e = CHR 0x22 \<or> e = CHR 0x5C \<or> e = CHR ''/'' then Some e
      else if e = CHR ''b'' then Some (CHR 0x08)
      else if e = CHR ''f'' then Some (CHR 0x0C)
      else if e = CHR ''n'' then Some (CHR 0x0A)
      else if e = CHR ''r'' then Some (CHR 0x0D)
      else if e = CHR ''t'' then Some (CHR 0x09)
      else None)"

definition low_surrogate :: "string \<Rightarrow> nat option" where
  "low_surrogate r =
     (case r of
        bs # u # a # b # c # d # r2 \<Rightarrow>
          if bs = CHR 0x5C \<and> u = CHR ''u'' then
            (case u4 a b c d of
               Some lo \<Rightarrow> if 0xDC00 \<le> lo \<and> lo < 0xE000 then Some lo else None
             | None \<Rightarrow> None)
          else None
      | _ \<Rightarrow> None)"

definition prepend :: "string \<Rightarrow> (string \<times> string) option \<Rightarrow> (string \<times> string) option" where
  "prepend p r = map_option (\<lambda>(s, rest). (p @ s, rest)) r"

fun parse_str :: "nat \<Rightarrow> string \<Rightarrow> (string \<times> string) option" where
  "parse_str k [] = None"
| "parse_str (Suc k) (c # cs) = parse_str k cs"
| "parse_str 0 (c # cs) =
     (if c = CHR 0x22 then Some ([], cs)
      else if c = CHR 0x5C then
        (case cs of
           [] \<Rightarrow> None
         | e # es \<Rightarrow>
            if e = CHR ''u'' then
              (case es of
                 a # b # c' # d # r \<Rightarrow>
                   (case u4 a b c' d of
                      None \<Rightarrow> None
                    | Some hi \<Rightarrow>
                        if 0xD800 \<le> hi \<and> hi < 0xE000 then
                          (case (if hi < 0xDC00 then low_surrogate r else None) of
                             Some lo \<Rightarrow>
                               prepend (utf8_encode ((hi - 0xD800) * 1024 + (lo - 0xDC00) + 0x10000))
                                 (parse_str 11 cs)
                           | None \<Rightarrow> prepend (utf8_encode 0xFFFD) (parse_str 5 cs))
                        else prepend (utf8_encode hi) (parse_str 5 cs))
               | _ \<Rightarrow> None)
            else (case unescape e of
                    None \<Rightarrow> None
                  | Some ch \<Rightarrow> prepend [ch] (parse_str 1 cs)))
      else if (of_char c :: nat) < 0x20 then None
      else prepend [c] (parse_str 0 cs))"

definition parse_digits :: "string \<Rightarrow> (string \<times> string) option" where
  "parse_digits s =
     (let ds = takeWhile re_digit s in if ds = [] then None else Some (ds, dropWhile re_digit s))"

definition parse_int_part :: "string \<Rightarrow> (string \<times> string) option" where
  "parse_int_part s =
     (case s of
        [] \<Rightarrow> None
      | c # cs \<Rightarrow> if c = CHR ''0'' then Some (''0'', cs) else parse_digits s)"

definition parse_frac :: "string \<Rightarrow> (string \<times> string) option" where
  "parse_frac s =
     (case s of
        [] \<Rightarrow> Some ([], s)
      | c # cs \<Rightarrow>
          if c = CHR ''.'' then prepend ''.'' (parse_digits cs) else Some ([], s))"

definition parse_exp :: "string \<Rightarrow> (string \<times> string) option" where
  "parse_exp s =
     (case s of
        [] \<Rightarrow> Some ([], s)
      | c # cs \<Rightarrow>
          if c = CHR ''e'' \<or> c = CHR ''E'' then
            (case cs of
               [] \<Rightarrow> None
             | g # gs \<Rightarrow>
                 if g = CHR ''+'' \<or> g = CHR ''-'' then prepend [c, g] (parse_digits gs)
                 else prepend [c] (parse_digits cs))
          else Some ([], s))"

definition parse_num :: "string \<Rightarrow> (string \<times> string) option" where
  "parse_num s =
     (case (case s of
              [] \<Rightarrow> None
            | c # cs \<Rightarrow> if c = CHR ''-'' then prepend ''-'' (parse_int_part cs)
                        else parse_int_part s) of
        None \<Rightarrow> None
      | Some (i, r) \<Rightarrow>
          (case parse_frac r of
             None \<Rightarrow> None
           | Some (f, r') \<Rightarrow> prepend (i @ f) (parse_exp r')))"

fun parse_value :: "nat \<Rightarrow> string \<Rightarrow> jerr + (gval \<times> string)"
  and parse_elems :: "nat \<Rightarrow> gval list \<Rightarrow> string \<Rightarrow> jerr + (gval list \<times> string)"
  and parse_members ::
    "nat \<Rightarrow> (string \<times> gval) list \<Rightarrow> string \<Rightarrow> jerr + ((string \<times> gval) list \<times> string)"
where
  "parse_value 0 s = Inl OutOfFuel"
| "parse_value (Suc n) s =
     (case skip_ws s of
        [] \<Rightarrow> Inl SyntaxError
      | c # cs \<Rightarrow>
          if c = CHR ''{'' then
            (if HasPrefix (skip_ws cs) ''}'' then Inr (VMap [], tl (skip_ws cs))
             else (case parse_members n [] cs of
                     Inl e \<Rightarrow> Inl e
                   | Inr (m, r) \<Rightarrow> Inr (VMap m, r)))
          else if c = CHR ''['' then
            (if HasPrefix (skip_ws cs) '']'' then Inr (VList [], tl (skip_ws cs))
             else (case parse_elems n [] cs of
                     Inl e \<Rightarrow> Inl e
                   | Inr (vs, r) \<Rightarrow> Inr (VList vs, r)))
          else if c = CHR 0x22 then
            (case parse_str 0 cs of
               None \<Rightarrow> Inl SyntaxError
             | Some (str, r) \<Rightarrow> Inr (VStr str, r))
          else if HasPrefix (c # cs) ''true'' then Inr (VBool True, drop 4 (c # cs))
          else if HasPrefix (c # cs) ''false'' then Inr (VBool False, drop 5 (c # cs))
          else if HasPrefix (c # cs) ''null'' then Inr (VNil, drop 4 (c # cs))
          else (case parse_num (c # cs) of
                  None \<Rightarrow> Inl SyntaxError
                | Some (lexeme, r) \<Rightarrow> Inr (VNum lexeme, r)))"
| "parse_elems 0 acc s = Inl OutOfFuel"
| "parse_elems (Suc n) acc s =
     (case parse_value n s of
        Inl e \<Rightarrow> Inl e
      | Inr (v, r) \<Rightarrow>
          (case skip_ws r of
             [] \<Rightarrow> Inl SyntaxError
           | c # r' \<Rightarrow>
               if c = CHR '','' then parse_elems n (acc @ [v]) r'
               else if c = CHR '']'' then Inr (acc @ [v], r')
               else Inl SyntaxError))"
| "parse_members 0 acc s = Inl OutOfFuel"
| "parse_members (Suc n) acc s =
     (case skip_ws s of
        [] \<Rightarrow> Inl SyntaxError
      | q # cs \<Rightarrow>
          if q = CHR 0x22 then
            (case parse_str 0 cs of
               None \<Rightarrow> Inl SyntaxError
             | Some (k, r) \<Rightarrow>
                 (case skip_ws r of
                    [] \<Rightarrow> Inl SyntaxError
                  | colon # r' \<Rightarrow>
                      if colon = CHR '':'' then
                        (case parse_value n r' of
                           Inl e \<Rightarrow> Inl e
                         | Inr (v, r'') \<Rightarrow>
                             (case skip_ws r'' of
                                [] \<Rightarrow> Inl SyntaxError
                              | c # r3 \<Rightarrow>
                                  if c = CHR '','' then parse_members n (upd k v acc) r3
                                  else if c = CHR ''}'' then Inr (upd k v acc, r3)
                                  else Inl SyntaxError))
                      else Inl SyntaxError))
          else Inl SyntaxError)"

definition json_parse :: "string \<Rightarrow> jerr + gval" where
  "json_parse s =
     (case parse_value (Suc (length s)) s of
        Inl e \<Rightarrow> Inl e
      | Inr (v, r) \<Rightarrow> if skip_ws r = [] then Inr v else Inl SyntaxError)"

definition Unmarshal_map :: "string \<Rightarrow> jerr + (string \<times> gval) list option" where
  "Unmarshal_map s =
     (case json_parse s of
        Inl e \<Rightarrow> Inl e
      | Inr v \<Rightarrow>
          (case v of
             VNil \<Rightarrow> Inr None
           | VMap m \<Rightarrow> Inr (Some m)
           | _ \<Rightarrow> Inl UnmarshalTypeError))"

definition bs :: string where "bs = [CHR 0x5C]"
section \<open>The tool-call reconstructor of the Anthropic handler\<close>

text \<open>
  Lines 146 to 160 and 294 to 308 of \<^verbatim>\<open>handlers/messages.go\<close> are the same: the new fragment is
  appended, the fragments are joined and decoded into \<^verbatim>\<open>toolJSON\<close>, and when that works and
  \<^verbatim>\<open>arguments\<close> is a string that decodes into a map, the map is stored under \<^verbatim>\<open>input\<close>.  What the
  handlers then send is made of \<^verbatim>\<open>toolJSON["id"]\<close>, \<^verbatim>\<open>toolJSON["name"]\<close> and \<^verbatim>\<open>toolJSON["input"]\<close>:
  a \<open>ToolInvocation\<close>.  Decoding \<^verbatim>\<open>null\<close> into a map variable leaves it nil, and a nil map
  reads as an empty one; \<open>NilMap\<close> is the nil map stored under \<^verbatim>\<open>input\<close> when \<^verbatim>\<open>arguments\<close> is
  \<^verbatim>\<open>"null"\<close>.
\<close>

datatype tool_input = NilMap | Value gval

record ToolInvocation =
  tool_id :: gval
  tool_name :: gval
  tool_input :: tool_input

definition lookup :: "(string \<times> gval) list \<Rightarrow> string \<Rightarrow> gval" where
  "lookup m k = (case map_of m k of None \<Rightarrow> VNil | Some v \<Rightarrow> v)"

definition try_tool_call :: "string list \<Rightarrow> jerr + ToolInvocation" where
  "try_tool_call toolCallParts =
     (case Unmarshal_map (concat toolCallParts) of
        Inl e \<Rightarrow> Inl e
      | Inr decoded \<Rightarrow>
          (let toolJSON = (case decoded of None \<Rightarrow> [] | Some m \<Rightarrow> m);
               input =
                 (case lookup toolJSON ''arguments'' of
                    VStr arguments \<Rightarrow>
                      (case Unmarshal_map arguments of
                         Inl e \<Rightarrow> Value (lookup toolJSON ''input'')
                       | Inr None \<Rightarrow> NilMap
                       | Inr (Some m) \<Rightarrow> Value (VMap m))
                  | _ \<Rightarrow> Value (lookup toolJSON ''input''))
           in Inr \<lparr>tool_id = lookup toolJSON ''id'', tool_name = lookup toolJSON ''name'',
                   tool_input = input\<rparr>))"

datatype out_item = OutText string | OutTool ToolInvocation

text \<open>
  The two loops over the events of a response: the streaming one (lines 135 to 239) writes a
  text delta for every delta with a \<^verbatim>\<open>text\<close> key and stops after the first tool call that
  decodes; the other one (lines 284 to 354) collects the text parts and returns with the
  first tool call that decodes.  Both call \<^verbatim>\<open>FormatResponse\<close> with the type \<^verbatim>\<open>"Anthropic"\<close>, and
  both thread \<^verbatim>\<open>phaseBak\<close>.  The bytes written to the client are left out: an \<open>out_item\<close> is
  what one write carries.
\<close>

definition is_done :: "ZaiResponse \<Rightarrow> bool" where
  "is_done ev = (case ev of None \<Rightarrow> False | Some d \<Rightarrow> Done d)"

fun stream_loop ::
  "string \<Rightarrow> string \<Rightarrow> string list \<Rightarrow> ZaiResponse list \<Rightarrow> out_item list \<times> string" where
  "stream_loop thinkMode phaseBak toolCallParts [] = ([], phaseBak)"
| "stream_loop thinkMode phaseBak toolCallParts (ev # evs) =
     (if is_done ev then ([], phaseBak)
      else
        (case FormatResponse thinkMode phaseBak (Some ev) ''Anthropic'' of
           (None, phaseBak') \<Rightarrow> stream_loop thinkMode phaseBak' toolCallParts evs
         | (Some delta, phaseBak') \<Rightarrow>
             (case map_of delta ''tool_call'' of
                Some toolCall \<Rightarrow>
                  (case try_tool_call (toolCallParts @ [toolCall]) of
                     Inr tool \<Rightarrow> ([OutTool tool], phaseBak')
                   | Inl e \<Rightarrow> stream_loop thinkMode phaseBak' (toolCallParts @ [toolCall]) evs)
              | None \<Rightarrow>
                  (case map_of delta ''text'' of
                     Some text \<Rightarrow>
                       (case stream_loop thinkMode phaseBak' toolCallParts evs of
                          (outs, final) \<Rightarrow> (OutText text # outs, final))
                   | None \<Rightarrow> stream_loop thinkMode phaseBak' toolCallParts evs))))"

datatype response = ToolUseResponse "string list" ToolInvocation | TextResponse "string list"

fun collect_loop ::
  "string \<Rightarrow> string \<Rightarrow> string list \<Rightarrow> string list \<Rightarrow> ZaiResponse list \<Rightarrow> response \<times> string"
  where
  "collect_loop thinkMode phaseBak textParts toolCallParts [] = (TextResponse textParts, phaseBak)"
| "collect_loop thinkMode phaseBak textParts toolCallParts (ev # evs) =
     (if is_done ev then (TextResponse textParts, phaseBak)
      else
        (case FormatResponse thinkMode phaseBak (Some ev) ''Anthropic'' of
           (None, phaseBak') \<Rightarrow> collect_loop thinkMode phaseBak' textParts toolCallParts evs
         | (Some delta, phaseBak') \<Rightarrow>
             (case map_of delta ''tool_call'' of
                Some toolCall \<Rightarrow>
                  (case try_tool_call (toolCallParts @ [toolCall]) of
                     Inr tool \<Rightarrow> (ToolUseResponse textParts tool, phaseBak')
                   | Inl e \<Rightarrow>
                       collect_loop thinkMode phaseBak' textParts (toolCallParts @ [toolCall]) evs)
              | None \<Rightarrow>
                  (let textParts = (case map_of delta ''content'' of
                                      Some content \<Rightarrow> textParts @ [content]
                                    | None \<Rightarrow> textParts);
                       textParts = (case map_of delta ''reasoning_content'' of
                                      Some reasoningContent \<Rightarrow> textParts @ [reasoningContent]
                                    | None \<Rightarrow> textParts)
                   in collect_loop thinkMode phaseBak' textParts toolCallParts evs))))"


section \<open>Properties of the tool-call reconstructor\<close>

text \<open>The two fragments of the claim; the second one holds two backslashes.\<close>

definition fragment1 :: string where
  \<open>fragment1 = ''{"id":"1","name":"x",''\<close>

definition fragment2 :: string where
  \<open>fragment2 = ''"arguments":"{'' @ [CHR 0x5C] @ ''"a'' @ [CHR 0x5C] @ ''":1}"}''\<close>

definition tool_event :: "string \<Rightarrow> ZaiResponse" where
  "tool_event c = Some \<lparr>Phase = ''tool_call'', DeltaContent = c, EditContent = [], Done = False\<rparr>"

lemma FormatResponse_tool_call:
  assumes "Phase d = ''tool_call''"
    and "(if DeltaContent d = [] then EditContent d else DeltaContent d) = content"
    and "content \<noteq> []"
  shows "FormatResponse thinkMode phaseBak (Some (Some d)) responseType =
         (Some [(''tool_call'',
                 ReplaceAllString glm_result (ReplaceAllString glm_open content ''{'') '''')],
          ''tool_call'')"
  using assms
  by (simp add: FormatResponse_def tool_call_phase_def rewrite_def Let_def emit_def)

lemma FormatResponse_fragment1: "FormatResponse thinkMode phaseBak (Some (tool_event fragment1)) ''Anthropic''
   = (Some [(''tool_call'', fragment1)], ''tool_call'')"
proof -
  have ne: "fragment1 \<noteq> []" by (simp add: fragment1_def)
  have r: "ReplaceAllString glm_result (ReplaceAllString glm_open fragment1 ''{'') '''' = fragment1"
    by code_simp
  show ?thesis unfolding tool_event_def
    by (subst FormatResponse_tool_call [where content = fragment1]) (simp_all add: ne r)
qed

lemma FormatResponse_fragment2: "FormatResponse thinkMode phaseBak (Some (tool_event fragment2)) ''Anthropic''
   = (Some [(''tool_call'', fragment2)], ''tool_call'')"
proof -
  have ne: "fragment2 \<noteq> []" by (simp add: fragment2_def)
  have r: "ReplaceAllString glm_result (ReplaceAllString glm_open fragment2 ''{'') '''' = fragment2"
    by code_simp
  show ?thesis unfolding tool_event_def
    by (subst FormatResponse_tool_call [where content = fragment2]) (simp_all add: ne r)
qed

lemma try_fragment1: "try_tool_call [fragment1] = Inl SyntaxError"
  by code_simp

lemma try_fragments: "try_tool_call [fragment1, fragment2] =
   Inr \<lparr>tool_id = VStr ''1'', tool_name = VStr ''x'',
        tool_input = Value (VMap [(''a'', VNum ''1'')])\<rparr>"
  by code_simp

text \<open>
  C4.  Fed the first fragment the reconstructor gives nothing, because the text so far is not
  JSON; fed the second one as well it gives one tool invocation, with id \<^verbatim>\<open>"1"\<close>, name \<^verbatim>\<open>"x"\<close> and
  the input \<^verbatim>\<open>{"a":1}\<close>; and whatever events follow, that invocation is all the stream gives.
  This holds for both loops, for every mode and every value of \<^verbatim>\<open>phaseBak\<close>.
\<close>

theorem tool_call_reconstruction:
  "try_tool_call [fragment1] = Inl SyntaxError
   \<and> stream_loop thinkMode phaseBak [] [tool_event fragment1] = ([], ''tool_call'')
   \<and> stream_loop thinkMode phaseBak [] (tool_event fragment1 # tool_event fragment2 # evs)
       = ([OutTool \<lparr>tool_id = VStr ''1'', tool_name = VStr ''x'',
                     tool_input = Value (VMap [(''a'', VNum ''1'')])\<rparr>], ''tool_call'')
   \<and> collect_loop thinkMode phaseBak [] [] [tool_event fragment1] = (TextResponse [], ''tool_call'')
   \<and> collect_loop thinkMode phaseBak [] [] (tool_event fragment1 # tool_event fragment2 # evs)
       = (ToolUseResponse [] \<lparr>tool_id = VStr ''1'', tool_name = VStr ''x'',
                     tool_input = Value (VMap [(''a'', VNum ''1'')])\<rparr>, ''tool_call'')"
proof -
  have d: "\<not> is_done (tool_event c)" for c by (simp add: is_done_def tool_event_def)
  show ?thesis
    by (simp add: d FormatResponse_fragment1 FormatResponse_fragment2 try_fragment1 try_fragments)
qed

section \<open>The request normaliser: \<^verbatim>\<open>FormatRequest\<close>\<close>

type_synonym gmap = "(string \<times> gval) list"

text \<open>
  A model of the catalog: its display id and the \<^verbatim>\<open>Original\<close> map, which may be nil.  The
  normaliser reads its surroundings through \<open>env\<close>: the default model and the anonymous flag
  of the configuration, the cached catalog (empty when there is none), the upload of an image
  behind the guard of \<^verbatim>\<open>UploadImage\<close> (an error text, or the name of the uploaded file), and
  \<^verbatim>\<open>json.Marshal\<close> on a map.
\<close>

record Model =
  ID :: string
  Original :: "gmap option"

record env =
  default_model :: string
  anonymous :: bool
  catalog :: "Model list"
  upload :: "string \<Rightarrow> string \<Rightarrow> string + string"
  marshal :: "gmap \<Rightarrow> string option"

definition del :: "string \<Rightarrow> gmap \<Rightarrow> gmap" where
  "del k m = filter (\<lambda>kv. fst kv \<noteq> k) m"

text \<open>\<open>str_of\<close> is \<^verbatim>\<open>s, _ := v.(string)\<close>: the string, or the empty string.\<close>

definition str_of :: "gval \<Rightarrow> string" where
  "str_of v = (case v of VStr s \<Rightarrow> s | _ \<Rightarrow> [])"

fun Join :: "string list \<Rightarrow> string \<Rightarrow> string" where
  "Join [] sep = []"
| "Join [x] sep = x"
| "Join (x # y # ys) sep = x @ sep @ Join (y # ys) sep"

text \<open>
  \<^verbatim>\<open>strings.ToLower\<close> is only compared with \<^verbatim>\<open>"enabled"\<close>.  No rune outside ASCII has one of the
  letters of that word as its lower case, so lowering the ASCII capitals decides the
  comparison.
\<close>

definition lower_char :: "char \<Rightarrow> char" where
  "lower_char c = (let n = (of_char c :: nat) in if 65 \<le> n \<and> n \<le> 90 then char_of (n + 32) else c)"

definition ToLower :: "string \<Rightarrow> string" where
  "ToLower s = map lower_char s"

text \<open>Lines 431 to 437: nothing is uploaded in anonymous mode, or when the URL is no data URL.\<close>

definition UploadImage :: "env \<Rightarrow> string \<Rightarrow> string \<Rightarrow> string + string" where
  "UploadImage e dataURL chatID =
     (if anonymous e \<or> \<not> HasPrefix dataURL ''data:'' then Inr [] else upload e dataURL chatID)"

text \<open>Lines 43 to 66: the text of the system prompt.\<close>

definition system_item :: "gval \<Rightarrow> string list" where
  "system_item item =
     (case item of
        VMap itemMap \<Rightarrow>
          if lookup itemMap ''type'' = VStr ''text'' then
            (case lookup itemMap ''text'' of VStr text \<Rightarrow> [TrimLeft_nl text] | _ \<Rightarrow> [])
          else []
      | _ \<Rightarrow> [])"

definition system_content :: "gval \<Rightarrow> string" where
  "system_content system =
     (case system of
        VStr v \<Rightarrow> TrimLeft_nl v
      | VList v \<Rightarrow> Join (concat (map system_item v)) ''\<newline>\<newline>''
      | _ \<Rightarrow> [])"

definition system_messages :: "gmap \<Rightarrow> gmap list" where
  "system_messages result =
     (case map_of result ''system'' of
        None \<Rightarrow> []
      | Some system \<Rightarrow>
          if system_content system = [] then []
          else [[(''role'', VStr ''system''), (''content'', VStr (system_content system))]])"

text \<open>
  The state of the loop over the blocks of one message (lines 91 to 244): the content built
  so far, the message under construction, the flag that keeps it out of the result, and the
  messages of the result so far.
\<close>

record block_state =
  newContent :: gval
  newMessage :: gmap
  dontAppend :: bool
  newMessages :: "gmap list"

text \<open>
  Lines 135 to 147 (and 155 to 166, 174 to 185): a string content becomes a one-block slice,
  and the new block is appended to the slice.
\<close>

definition append_block :: "gval \<Rightarrow> gmap \<Rightarrow> gval" where
  "append_block content block =
     (let content = (case content of
                       VStr contentStr \<Rightarrow> VMaps [[(''type'', VStr ''text''), (''text'', VStr contentStr)]]
                     | _ \<Rightarrow> content)
      in case content of VMaps contentSlice \<Rightarrow> VMaps (contentSlice @ [block]) | _ \<Rightarrow> content)"

text \<open>Lines 112 to 132: the URL of an image block, empty when there is none.\<close>

definition media_url :: "gmap \<Rightarrow> string" where
  "media_url itemMap =
     (let mediaURL =
        (case lookup itemMap ''image_url'' of
           VMap imageURL \<Rightarrow> (case lookup imageURL ''url'' of VStr urlStr \<Rightarrow> urlStr | _ \<Rightarrow> [])
         | _ \<Rightarrow> [])
      in case lookup itemMap ''source'' of
           VMap source \<Rightarrow>
             if lookup source ''type'' = VStr ''base64'' then
               (case lookup source ''data'' of
                  VStr data \<Rightarrow>
                    ''data:''
                    @ (if str_of (lookup source ''media_type'') = [] then ''image/jpeg''
                       else str_of (lookup source ''media_type''))
                    @ '';base64,'' @ data
                | _ \<Rightarrow> mediaURL)
             else mediaURL
         | _ \<Rightarrow> mediaURL)"

definition image_block :: "env \<Rightarrow> string \<Rightarrow> gmap \<Rightarrow> block_state \<Rightarrow> block_state" where
  "image_block e chatID itemMap st =
     (let mediaURL = media_url itemMap in
      if mediaURL = [] then
        st\<lparr>newContent := append_block (newContent st)
             [(''type'', VStr ''text''),
              (''text'', VStr ''system: image error - Unsupported format or missing URL'')]\<rparr>
      else
        (case UploadImage e mediaURL chatID of
           Inl err \<Rightarrow>
             st\<lparr>newContent := append_block (newContent st)
                  [(''type'', VStr ''text''),
                   (''text'', VStr (''system: image upload error - '' @ err))]\<rparr>
         | Inr uploadedURL \<Rightarrow>
             st\<lparr>newContent := append_block (newContent st)
                  [(''type'', VStr ''image_url''),
                   (''image_url'',
                    VMap [(''url'', VStr (if uploadedURL = [] then mediaURL else uploadedURL))])]\<rparr>))"

text \<open>Lines 189 to 212: a tool use of the assistant.\<close>

definition tool_use_block :: "env \<Rightarrow> gmap \<Rightarrow> block_state \<Rightarrow> block_state" where
  "tool_use_block e itemMap st =
     (let toolCalls = (case lookup (newMessage st) ''tool_calls'' of VMaps tc \<Rightarrow> tc | _ \<Rightarrow> []);
          arguments =
            (case lookup itemMap ''input'' of
               VMap input \<Rightarrow> (case marshal e input of Some argBytes \<Rightarrow> argBytes | None \<Rightarrow> ''{}'')
             | _ \<Rightarrow> ''{}'')
      in st\<lparr>newMessage :=
              upd ''tool_calls''
                (VMaps (toolCalls @
                   [[(''id'', lookup itemMap ''id''), (''type'', VStr ''function''),
                     (''function'',
                      VMap [(''name'', lookup itemMap ''name''), (''arguments'', VStr arguments)])]]))
                (newMessage st),
            dontAppend := True\<rparr>)"

text \<open>Lines 215 to 243: a tool result becomes a message of its own, at once.\<close>

definition result_part :: "gval \<Rightarrow> string list" where
  "result_part c =
     (case c of
        VMap cMap \<Rightarrow>
          if lookup cMap ''type'' = VStr ''text'' then
            (case lookup cMap ''text'' of VStr text \<Rightarrow> (if text = [] then [] else [text]) | _ \<Rightarrow> [])
          else []
      | _ \<Rightarrow> [])"

definition tool_result_block :: "gmap \<Rightarrow> block_state \<Rightarrow> block_state" where
  "tool_result_block itemMap st =
     (let result =
        (case lookup itemMap ''content'' of
           VList contentArr \<Rightarrow> Join (concat (map result_part contentArr)) []
         | VStr resultStr \<Rightarrow> resultStr
         | _ \<Rightarrow> [])
      in st\<lparr>newMessages := newMessages st @
              [[(''role'', VStr ''tool''), (''tool_call_id'', lookup itemMap ''tool_use_id''),
                (''content'', VStr result)]],
            dontAppend := True\<rparr>)"

text \<open>One block (the body of the loop of line 94).\<close>

definition block_step :: "env \<Rightarrow> string \<Rightarrow> string \<Rightarrow> block_state \<Rightarrow> gval \<Rightarrow> block_state" where
  "block_step e chatID role st item =
     (case item of
        VMap itemMap \<Rightarrow>
          (let itemType = str_of (lookup itemMap ''type'') in
           if itemType = ''text'' then
             (case lookup itemMap ''text'' of
                VStr text \<Rightarrow> st\<lparr>newContent := VStr text\<rparr>
              | _ \<Rightarrow> st)
           else if itemType = ''image_url'' \<or> itemType = ''image'' then image_block e chatID itemMap st
           else if itemType = ''tool_use'' \<and> role = ''assistant'' then tool_use_block e itemMap st
           else if itemType = ''tool_result'' then tool_result_block itemMap st
           else st)
      | _ \<Rightarrow> st)"

text \<open>One message (the body of the loop of line 72).\<close>

definition message_step :: "env \<Rightarrow> string \<Rightarrow> gmap list \<Rightarrow> gval \<Rightarrow> gmap list" where
  "message_step e chatID msgs msg =
     (case msg of
        VMap message \<Rightarrow>
          (let role = str_of (lookup message ''role'') in
           case lookup message ''content'' of
             VStr contentStr \<Rightarrow> msgs @ [[(''role'', VStr role), (''content'', VStr contentStr)]]
           | VList contentArr \<Rightarrow>
               (let st = foldl (block_step e chatID role)
                           \<lparr>newContent = VStr [], newMessage = [(''role'', VStr role)],
                            dontAppend = False, newMessages = msgs\<rparr> contentArr
                in if dontAppend st then newMessages st
                   else newMessages st @ [upd ''content'' (newContent st) (newMessage st)])
           | _ \<Rightarrow> msgs)
      | _ \<Rightarrow> msgs)"

text \<open>Lines 40 to 252: the messages of the result.\<close>

definition new_messages :: "env \<Rightarrow> gmap \<Rightarrow> gmap list" where
  "new_messages e result =
     (case lookup result ''messages'' of
        VList messages \<Rightarrow>
          foldl (message_step e (str_of (lookup result ''chat_id''))) (system_messages result) messages
      | _ \<Rightarrow> system_messages result)"

text \<open>Lines 254 to 266: from the display id of a model back to its source id.\<close>

fun source_model :: "Model list \<Rightarrow> string \<Rightarrow> string" where
  "source_model [] model = model"
| "source_model (m # ms) model =
     (if ID m = model then
        (case Original m of
           None \<Rightarrow> source_model ms model
         | Some orig \<Rightarrow>
             (case lookup orig ''id'' of
                VStr sourceID \<Rightarrow> if model = sourceID then source_model ms model else sourceID
              | _ \<Rightarrow> source_model ms model))
      else source_model ms model)"

text \<open>Lines 272 to 294: the features.\<close>

definition features_of :: "gmap \<Rightarrow> gmap" where
  "features_of result =
     (let features = [(''enable_thinking'', VBool False)];
          features = (case lookup result ''features'' of
                        VMap existingFeatures \<Rightarrow> foldl (\<lambda>f kv. upd (fst kv) (snd kv) f) features existingFeatures
                      | _ \<Rightarrow> features);
          features = (case map_of result ''enable_thinking'' of
                        Some enableThinking \<Rightarrow> upd ''enable_thinking'' enableThinking features
                      | None \<Rightarrow> features)
      in case lookup result ''thinking'' of
           VMap thinking \<Rightarrow>
             (case lookup thinking ''type'' of
                VStr thinkType \<Rightarrow>
                  upd ''enable_thinking'' (VBool (ToLower thinkType = ''enabled'')) features
              | _ \<Rightarrow> features)
         | _ \<Rightarrow> features)"

text \<open>
  Lines 296 to 314: the first model of the catalog with the id, display or source, decides;
  when its capabilities say that it does not think, the flag is taken out of the features.
\<close>

definition no_think :: "Model \<Rightarrow> bool" where
  "no_think m =
     (case Original m of
        None \<Rightarrow> False
      | Some orig \<Rightarrow>
          (case lookup orig ''info'' of
             VMap info \<Rightarrow>
               (case lookup info ''meta'' of
                  VMap meta \<Rightarrow>
                    (case lookup meta ''capabilities'' of
                       VMap caps \<Rightarrow> lookup caps ''think'' = VBool False
                     | _ \<Rightarrow> False)
                | _ \<Rightarrow> False)
           | _ \<Rightarrow> False))"

definition has_id :: "Model \<Rightarrow> string \<Rightarrow> bool" where
  "has_id m model =
     (ID m = model \<or> (case Original m of None \<Rightarrow> False | Some orig \<Rightarrow> lookup orig ''id'' = VStr model))"

fun check_think :: "Model list \<Rightarrow> string \<Rightarrow> gmap \<Rightarrow> gmap" where
  "check_think [] model features = features"
| "check_think (m # ms) model features =
     (if has_id m model then (if no_think m then del ''enable_thinking'' features else features)
      else check_think ms model features)"

text \<open>
  \<^verbatim>\<open>FormatRequest\<close>.  The only \<^verbatim>\<open>return\<close> of the function is that of line 320, with a nil error;
  the result type keeps the place of the error all the same.
\<close>

definition FormatRequest :: "env \<Rightarrow> gmap \<Rightarrow> string \<Rightarrow> string + gmap" where
  "FormatRequest e data requestType =
     (let result = data;
          model = (case lookup result ''model'' of
                     VStr m \<Rightarrow> if m = [] then default_model e else m
                   | _ \<Rightarrow> default_model e);
          msgs = new_messages e result;
          result = del ''system'' result;
          model = source_model (catalog e) model;
          result = upd ''model'' (VStr model) result;
          result = upd ''messages'' (VMaps msgs) result;
          result = upd ''stream'' (VBool True) result;
          features = features_of result;
          result = del ''enable_thinking'' result;
          result = (case lookup result ''thinking'' of VMap thinking \<Rightarrow> del ''thinking'' result | _ \<Rightarrow> result);
          features = check_think (catalog e) model features;
          result = (if features = [] then result else upd ''features'' (VMap features) result)
      in Inr result)"

text \<open>
  Writing a result out with \<^verbatim>\<open>encoding/json\<close> and reading it back, as a handler reads a request:
  a slice of maps comes back as a \<^verbatim>\<open>[]interface{}\<close> of maps.
\<close>

primrec reencode :: "gval \<Rightarrow> gval" where
  "reencode VNil = VNil"
| "reencode (VBool b) = VBool b"
| "reencode (VNum n) = VNum n"
| "reencode (VStr s) = VStr s"
| "reencode (VList vs) = VList (map reencode vs)"
| "reencode (VMap m) = VMap (map (map_prod id reencode) m)"
| "reencode (VMaps ms) = VList (map VMap (map (map (map_prod id reencode)) ms))"

definition reencode_map :: "gmap \<Rightarrow> gmap" where
  "reencode_map m = map (map_prod id reencode) m"

definition env0 :: env where
  "env0 = \<lparr>default_model = ''glm-4.6'', anonymous = True, catalog = [],
           upload = (\<lambda>u c. Inr []), marshal = (\<lambda>m. None)\<rparr>"
section \<open>Properties of the request normaliser\<close>

subsection \<open>Reading a map after assignments and deletions\<close>

lemma map_of_upd: "map_of (upd k v m) k' = (if k' = k then Some v else map_of m k')"
  by (induction m) auto

lemma map_of_del: "map_of (del k m) k' = (if k' = k then None else map_of m k')"
  by (induction m) (auto simp: del_def)

lemma lookup_upd: "lookup (upd k v m) k' = (if k' = k then v else lookup m k')"
  by (simp add: lookup_def map_of_upd)

lemma lookup_del: "lookup (del k m) k' = (if k' = k then VNil else lookup m k')"
  by (simp add: lookup_def map_of_del)

text \<open>What \<^verbatim>\<open>FormatRequest\<close> returns under the keys \<^verbatim>\<open>messages\<close>, \<^verbatim>\<open>stream\<close> and \<^verbatim>\<open>system\<close>.\<close>

lemma FormatRequest_total: "\<exists>r. FormatRequest e data requestType = Inr r"
  by (simp add: FormatRequest_def Let_def)

lemma FormatRequest_messages:
  assumes "FormatRequest e data requestType = Inr r"
  shows "lookup r ''messages'' = VMaps (new_messages e data)"
  using assms
  by (auto simp: FormatRequest_def Let_def lookup_upd lookup_del split: gval.splits if_splits)

lemma FormatRequest_stream:
  assumes "FormatRequest e data requestType = Inr r"
  shows "lookup r ''stream'' = VBool True"
  using assms
  by (auto simp: FormatRequest_def Let_def lookup_upd lookup_del split: gval.splits if_splits)

lemma FormatRequest_system:
  assumes "FormatRequest e data requestType = Inr r"
  shows "map_of r ''system'' = None"
  using assms
  by (auto simp: FormatRequest_def Let_def map_of_upd map_of_del split: gval.splits if_splits)

lemma FormatRequest_chat_id:
  assumes "FormatRequest e data requestType = Inr r"
  shows "lookup r ''chat_id'' = lookup data ''chat_id''"
  using assms
  by (auto simp: FormatRequest_def Let_def lookup_upd lookup_del split: gval.splits if_splits)

subsection \<open>The dynamic type of a value\<close>

definition is_VStr :: "gval \<Rightarrow> bool" where
  "is_VStr v = (case v of VStr s \<Rightarrow> True | _ \<Rightarrow> False)"

definition is_VList :: "gval \<Rightarrow> bool" where
  "is_VList v = (case v of VList l \<Rightarrow> True | _ \<Rightarrow> False)"

definition is_VMap :: "gval \<Rightarrow> bool" where
  "is_VMap v = (case v of VMap m \<Rightarrow> True | _ \<Rightarrow> False)"

subsection \<open>Failure\<close>

lemma message_step_non_object:
  assumes "\<not> is_VMap m"
  shows "message_step e chatID msgs m = msgs"
  using assms by (simp add: message_step_def is_VMap_def split: gval.splits)

lemma foldl_message_step_objects:
  "foldl (message_step e chatID) init msgs
     = foldl (message_step e chatID) init (filter is_VMap msgs)"
  by (induction msgs arbitrary: init) (simp_all add: message_step_non_object)

lemma foldl_message_step_no_object:
  assumes "list_all (\<lambda>m. \<not> is_VMap m) msgs"
  shows "foldl (message_step e chatID) init msgs = init"
  using assms by (induction msgs arbitrary: init) (simp_all add: message_step_non_object)

lemma new_messages_list:
  assumes "lookup data ''messages'' = VList msgs"
  shows "new_messages e data
     = foldl (message_step e (str_of (lookup data ''chat_id''))) (system_messages data) msgs"
  using assms by (simp add: new_messages_def)

lemma new_messages_upd:
  "new_messages e (upd ''messages'' (VList msgs) data)
     = foldl (message_step e (str_of (lookup data ''chat_id''))) (system_messages data) msgs"
  by (simp add: new_messages_def lookup_upd system_messages_def map_of_upd)

lemma new_messages_objects:
  assumes "lookup data ''messages'' = VList msgs"
  shows "new_messages e data
     = new_messages e (upd ''messages'' (VList (filter is_VMap msgs)) data)"
  unfolding new_messages_list [OF assms] new_messages_upd
  by (rule foldl_message_step_objects)

lemma new_messages_no_list:
  assumes "\<not> is_VList (lookup data ''messages'')"
  shows "new_messages e data = system_messages data"
  using assms by (simp add: new_messages_def is_VList_def split: gval.splits)

lemma system_messages_none:
  assumes "map_of data ''system'' = None"
  shows "system_messages data = []"
  using assms by (simp add: system_messages_def)

text \<open>
  C6, as the code has it.  \<^verbatim>\<open>FormatRequest\<close> never returns an error, whatever the request holds:
  it always returns a result, with \<^verbatim>\<open>stream\<close> set.  Where the message list is a list, its
  entries that are no objects are skipped: the messages of the result are those of the same
  request without these entries, and just the message of the system prompt when no entry is
  an object.  Where it is no list, the messages of the result are just the message of the
  system prompt; and there is no such message in a request without a \<^verbatim>\<open>system\<close> field.
\<close>

theorem normalize_never_fails:
  "\<exists>r. FormatRequest e data requestType = Inr r
     \<and> lookup r ''stream'' = VBool True
     \<and> (\<forall>msgs. lookup data ''messages'' = VList msgs \<longrightarrow>
          (\<exists>r'. FormatRequest e (upd ''messages'' (VList (filter is_VMap msgs)) data) requestType
                  = Inr r'
                \<and> lookup r ''messages'' = lookup r' ''messages'')
          \<and> (list_all (\<lambda>m. \<not> is_VMap m) msgs
               \<longrightarrow> lookup r ''messages'' = VMaps (system_messages data)))
     \<and> (\<not> is_VList (lookup data ''messages'')
          \<longrightarrow> lookup r ''messages'' = VMaps (system_messages data))
     \<and> (map_of data ''system'' = None \<longrightarrow> system_messages data = [])"
proof -
  obtain r where r: "FormatRequest e data requestType = Inr r"
    using FormatRequest_total by blast
  note m = FormatRequest_messages [OF r]
  have a: "\<exists>r'. FormatRequest e (upd ''messages'' (VList (filter is_VMap msgs)) data) requestType
                  = Inr r'
                \<and> lookup r ''messages'' = lookup r' ''messages''"
    if l: "lookup data ''messages'' = VList msgs" for msgs
  proof -
    obtain r' where r':
      "FormatRequest e (upd ''messages'' (VList (filter is_VMap msgs)) data) requestType = Inr r'"
      using FormatRequest_total by blast
    have "lookup r ''messages'' = lookup r' ''messages''"
      unfolding m FormatRequest_messages [OF r'] using new_messages_objects [OF l] by simp
    then show ?thesis using r' by blast
  qed
  have b: "lookup r ''messages'' = VMaps (system_messages data)"
    if l: "lookup data ''messages'' = VList msgs" and n: "list_all (\<lambda>m. \<not> is_VMap m) msgs"
    for msgs
    unfolding m new_messages_list [OF l] by (simp add: foldl_message_step_no_object [OF n])
  have c: "lookup r ''messages'' = VMaps (system_messages data)"
    if "\<not> is_VList (lookup data ''messages'')"
    unfolding m by (simp add: new_messages_no_list [OF that])
  have d: "system_messages data = []" if "map_of data ''system'' = None"
    by (rule system_messages_none [OF that])
  show ?thesis
  proof (rule exI [of _ r], intro conjI allI impI)
    show "FormatRequest e data requestType = Inr r" by (rule r)
    show "lookup r ''stream'' = VBool True" by (rule FormatRequest_stream [OF r])
    show "\<exists>r'. FormatRequest e (upd ''messages'' (VList (filter is_VMap msgs)) data) requestType
                  = Inr r'
                \<and> lookup r ''messages'' = lookup r' ''messages''"
      if "lookup data ''messages'' = VList msgs" for msgs
      by (rule a [OF that])
    show "lookup r ''messages'' = VMaps (system_messages data)"
      if "lookup data ''messages'' = VList msgs" and "list_all (\<lambda>m. \<not> is_VMap m) msgs"
      for msgs
      by (rule b [OF that])
    show "lookup r ''messages'' = VMaps (system_messages data)"
      if "\<not> is_VList (lookup data ''messages'')"
      by (rule c [OF that])
    show "system_messages data = []" if "map_of data ''system'' = None"
      by (rule d [OF that])
  qed
qed

text \<open>
  A message list with a number, a message and a string: the number and the string are
  skipped, and the result holds the one message.
\<close>

theorem normalize_never_fails_witness:
  "lookup [(''messages'',
            VList [VNum ''3'', VMap [(''role'', VStr ''user''), (''content'', VStr ''hi'')],
                   VStr ''x''])] ''messages''
     = VList [VNum ''3'', VMap [(''role'', VStr ''user''), (''content'', VStr ''hi'')], VStr ''x'']
   \<and> filter is_VMap
        [VNum ''3'', VMap [(''role'', VStr ''user''), (''content'', VStr ''hi'')], VStr ''x'']
     = [VMap [(''role'', VStr ''user''), (''content'', VStr ''hi'')]]
   \<and> (\<exists>r r'.
        FormatRequest env0
          [(''messages'',
            VList [VNum ''3'', VMap [(''role'', VStr ''user''), (''content'', VStr ''hi'')],
                   VStr ''x''])] ''OpenAI'' = Inr r
      \<and> lookup r ''stream'' = VBool True
      \<and> FormatRequest env0
          [(''messages'', VList [VMap [(''role'', VStr ''user''), (''content'', VStr ''hi'')]])]
          ''OpenAI'' = Inr r'
      \<and> lookup r ''messages'' = lookup r' ''messages''
      \<and> lookup r' ''messages'' = VMaps [[(''role'', VStr ''user''), (''content'', VStr ''hi'')]])"
proof -
  let ?M = "[VNum ''3'', VMap [(''role'', VStr ''user''), (''content'', VStr ''hi'')], VStr ''x'']"
  let ?D = "[(''messages'', VList ?M)]"
  let ?D' = "[(''messages'', VList [VMap [(''role'', VStr ''user''), (''content'', VStr ''hi'')]])]"
  have l: "lookup ?D ''messages'' = VList ?M" by code_simp
  have f: "filter is_VMap ?M = [VMap [(''role'', VStr ''user''), (''content'', VStr ''hi'')]]"
    by code_simp
  have u: "upd ''messages'' (VList (filter is_VMap ?M)) ?D = ?D'"
    unfolding f by code_simp
  obtain r where r: "FormatRequest env0 ?D ''OpenAI'' = Inr r"
    and s: "lookup r ''stream'' = VBool True"
    and a: "\<forall>msgs. lookup ?D ''messages'' = VList msgs \<longrightarrow>
          (\<exists>r'. FormatRequest env0 (upd ''messages'' (VList (filter is_VMap msgs)) ?D) ''OpenAI''
                  = Inr r'
                \<and> lookup r ''messages'' = lookup r' ''messages'')
          \<and> (list_all (\<lambda>m. \<not> is_VMap m) msgs
               \<longrightarrow> lookup r ''messages'' = VMaps (system_messages ?D))"
    using normalize_never_fails [of env0 ?D "''OpenAI''"] by blast
  from a l obtain r' where
    r': "FormatRequest env0 (upd ''messages'' (VList (filter is_VMap ?M)) ?D) ''OpenAI'' = Inr r'"
    and e: "lookup r ''messages'' = lookup r' ''messages''"
    by blast
  have r'': "FormatRequest env0 ?D' ''OpenAI'' = Inr r'" using r' unfolding u .
  have v: "FormatRequest env0 ?D' ''OpenAI''
      = Inr [(''messages'', VMaps [[(''role'', VStr ''user''), (''content'', VStr ''hi'')]]),
             (''model'', VStr ''glm-4.6''), (''stream'', VBool True),
             (''features'', VMap [(''enable_thinking'', VBool False)])]"
    by code_simp
  have w: "lookup [(''messages'', VMaps [[(''role'', VStr ''user''), (''content'', VStr ''hi'')]]),
             (''model'', VStr ''glm-4.6''), (''stream'', VBool True),
             (''features'', VMap [(''enable_thinking'', VBool False)])] ''messages''
      = VMaps [[(''role'', VStr ''user''), (''content'', VStr ''hi'')]]"
    by code_simp
  have x: "lookup r' ''messages'' = VMaps [[(''role'', VStr ''user''), (''content'', VStr ''hi'')]]"
    using r'' v w by simp
  have "\<exists>r r'. FormatRequest env0 ?D ''OpenAI'' = Inr r
      \<and> lookup r ''stream'' = VBool True
      \<and> FormatRequest env0 ?D' ''OpenAI'' = Inr r'
      \<and> lookup r ''messages'' = lookup r' ''messages''
      \<and> lookup r' ''messages'' = VMaps [[(''role'', VStr ''user''), (''content'', VStr ''hi'')]]"
    by (intro exI conjI) (rule r s r'' e x)+
  then show ?thesis using l f by (intro conjI)
qed

text \<open>
  The claim as it is written fails: a request whose \<^verbatim>\<open>messages\<close> is a string, and one whose
  message list holds a number and a string instead of objects, are both normalised without an
  error, to an empty message list.
\<close>

theorem normalize_never_fails_counterexample:
  "FormatRequest env0 [(''messages'', VStr ''hello'')] ''OpenAI''
     = Inr [(''messages'', VMaps []), (''model'', VStr ''glm-4.6''), (''stream'', VBool True),
            (''features'', VMap [(''enable_thinking'', VBool False)])]
   \<and> FormatRequest env0 [(''messages'', VList [VNum ''3'', VStr ''x''])] ''OpenAI''
     = Inr [(''messages'', VMaps []), (''model'', VStr ''glm-4.6''), (''stream'', VBool True),
            (''features'', VMap [(''enable_thinking'', VBool False)])]"
  by code_simp

subsection \<open>Text blocks\<close>

text \<open>
  C7 fails on the code.  Line 105 assigns the text of a block to \<^verbatim>\<open>newContent\<close>; it does not
  append it.  A message with the two text blocks \<open>a\<close> and \<open>b\<close> is normalised to the content
  \<open>b\<close>, and \<open>a\<close> is lost.
\<close>

theorem text_blocks_overwrite:
  "\<exists>r. FormatRequest e
          [(''messages'',
            VList [VMap [(''role'', VStr ''user''),
                         (''content'',
                          VList [VMap [(''type'', VStr ''text''), (''text'', VStr a)],
                                 VMap [(''type'', VStr ''text''), (''text'', VStr b)]])]])]
          requestType = Inr r
       \<and> lookup r ''messages'' = VMaps [[(''role'', VStr ''user''), (''content'', VStr b)]]"
proof -
  let ?data = "[(''messages'',
            VList [VMap [(''role'', VStr ''user''),
                         (''content'',
                          VList [VMap [(''type'', VStr ''text''), (''text'', VStr a)],
                                 VMap [(''type'', VStr ''text''), (''text'', VStr b)]])]])]"
  obtain r where r: "FormatRequest e ?data requestType = Inr r"
    using FormatRequest_total by blast
  have "new_messages e ?data = [[(''role'', VStr ''user''), (''content'', VStr b)]]"
    by (simp add: new_messages_def lookup_def system_messages_def message_step_def str_of_def
        block_step_def)
  then show ?thesis using r FormatRequest_messages [OF r] by simp
qed

subsection \<open>A message whose content is neither a string nor a list\<close>

lemma message_step_skip:
  assumes "\<not> is_VStr (lookup message ''content'')" and "\<not> is_VList (lookup message ''content'')"
  shows "message_step e chatID msgs (VMap message) = msgs"
  using assms by (simp add: message_step_def is_VStr_def is_VList_def split: gval.splits)

lemma new_messages_skip:
  assumes "\<not> is_VStr (lookup message ''content'')" and "\<not> is_VList (lookup message ''content'')"
  shows "new_messages e (upd ''messages'' (VList (before @ [VMap message] @ after)) data)
       = new_messages e (upd ''messages'' (VList (before @ after)) data)"
proof -
  have c: "lookup (upd ''messages'' v data) ''chat_id'' = lookup data ''chat_id''" for v
    by (simp add: lookup_upd)
  have s: "system_messages (upd ''messages'' v data) = system_messages data" for v
    by (simp add: system_messages_def map_of_upd)
  show ?thesis
    by (simp add: new_messages_def lookup_upd c s message_step_skip [OF assms])
qed

text \<open>
  C10.  A message object whose content is neither a string nor a list leaves no trace: the
  request with it, between the messages \<open>before\<close> and \<open>after\<close>, is normalised without an
  error to the same message list as the request without it.
\<close>

theorem odd_content_dropped:
  assumes "\<not> is_VStr (lookup message ''content'')" and "\<not> is_VList (lookup message ''content'')"
  shows "\<exists>r r'.
      FormatRequest e (upd ''messages'' (VList (before @ [VMap message] @ after)) data) requestType
        = Inr r
    \<and> FormatRequest e (upd ''messages'' (VList (before @ after)) data) requestType = Inr r'
    \<and> lookup r ''messages''
        = VMaps (new_messages e (upd ''messages'' (VList (before @ after)) data))
    \<and> lookup r ''messages'' = lookup r' ''messages''"
proof -
  let ?d = "upd ''messages'' (VList (before @ [VMap message] @ after)) data"
  let ?d' = "upd ''messages'' (VList (before @ after)) data"
  obtain r where r: "FormatRequest e ?d requestType = Inr r"
    using FormatRequest_total by blast
  obtain r' where r': "FormatRequest e ?d' requestType = Inr r'"
    using FormatRequest_total by blast
  have "lookup r ''messages'' = VMaps (new_messages e ?d')"
    using FormatRequest_messages [OF r] new_messages_skip [OF assms] by simp
  then show ?thesis using r r' FormatRequest_messages [OF r'] by simp
qed

theorem odd_content_dropped_witness:
  "\<not> is_VStr (lookup [(''role'', VStr ''user''), (''content'', VNum ''7'')] ''content'')
   \<and> \<not> is_VList (lookup [(''role'', VStr ''user''), (''content'', VNum ''7'')] ''content'')
   \<and> (\<exists>r r'.
      FormatRequest env0
        (upd ''messages''
           (VList ([VMap [(''role'', VStr ''user''), (''content'', VStr ''a'')]]
                   @ [VMap [(''role'', VStr ''user''), (''content'', VNum ''7'')]]
                   @ [VMap [(''role'', VStr ''user''), (''content'', VStr ''b'')]])) [])
        ''OpenAI'' = Inr r
    \<and> FormatRequest env0
        (upd ''messages''
           (VList ([VMap [(''role'', VStr ''user''), (''content'', VStr ''a'')]]
                   @ [VMap [(''role'', VStr ''user''), (''content'', VStr ''b'')]])) [])
        ''OpenAI'' = Inr r'
    \<and> lookup r ''messages''
        = VMaps [[(''role'', VStr ''user''), (''content'', VStr ''a'')],
                 [(''role'', VStr ''user''), (''content'', VStr ''b'')]]
    \<and> lookup r ''messages'' = lookup r' ''messages'')"
proof -
  let ?m = "[(''role'', VStr ''user''), (''content'', VNum ''7'')]"
  let ?a = "[VMap [(''role'', VStr ''user''), (''content'', VStr ''a'')]]"
  let ?b = "[VMap [(''role'', VStr ''user''), (''content'', VStr ''b'')]]"
  have h1: "\<not> is_VStr (lookup ?m ''content'')" by code_simp
  have h2: "\<not> is_VList (lookup ?m ''content'')" by code_simp
  have n: "new_messages env0 (upd ''messages'' (VList (?a @ ?b)) [])
      = [[(''role'', VStr ''user''), (''content'', VStr ''a'')],
         [(''role'', VStr ''user''), (''content'', VStr ''b'')]]"
    by code_simp
  show ?thesis
    using h1 h2 odd_content_dropped [OF h1 h2, of env0 ?a ?b "[]" "''OpenAI''"]
    unfolding n by blast
qed
subsection \<open>Normalising twice\<close>

text \<open>
  The messages that a second pass gives back as they are.  A plain message is a role and a
  string content, as line 84 builds it.  A block message is a role and a slice of blocks: one
  text block, then one image block or more, as lines 174 to 185 build them, where the URL of
  each image is one that \<^verbatim>\<open>UploadImage\<close> leaves alone (it returns nothing, or the same URL).
\<close>

definition text_block :: "string \<Rightarrow> gmap" where
  "text_block t = [(''type'', VStr ''text''), (''text'', VStr t)]"

definition image_url_block :: "string \<Rightarrow> gmap" where
  "image_url_block u = [(''type'', VStr ''image_url''), (''image_url'', VMap [(''url'', VStr u)])]"

definition block_url :: "gmap \<Rightarrow> string" where
  "block_url b = str_of (lookup (case lookup b ''image_url'' of VMap m \<Rightarrow> m | _ \<Rightarrow> []) ''url'')"

definition kept_url :: "env \<Rightarrow> string \<Rightarrow> string \<Rightarrow> bool" where
  "kept_url e chatID u =
     (u \<noteq> [] \<and> (UploadImage e u chatID = Inr [] \<or> UploadImage e u chatID = Inr u))"

definition kept_image :: "env \<Rightarrow> string \<Rightarrow> gmap \<Rightarrow> bool" where
  "kept_image e chatID b = (b = image_url_block (block_url b) \<and> kept_url e chatID (block_url b))"

definition plain :: "gmap \<Rightarrow> bool" where
  "plain m =
     (m = [(''role'', VStr (str_of (lookup m ''role''))),
           (''content'', VStr (str_of (lookup m ''content'')))])"

definition blocks_of :: "gmap \<Rightarrow> gmap list" where
  "blocks_of m = (case lookup m ''content'' of VMaps blks \<Rightarrow> blks | _ \<Rightarrow> [])"

definition block_message :: "env \<Rightarrow> string \<Rightarrow> gmap \<Rightarrow> bool" where
  "block_message e chatID m =
     (m = [(''role'', VStr (str_of (lookup m ''role''))), (''content'', VMaps (blocks_of m))]
      \<and> (case blocks_of m of
            [] \<Rightarrow> False
          | b # imgs \<Rightarrow>
              b = text_block (str_of (lookup b ''text'')) \<and> imgs \<noteq> []
              \<and> list_all (kept_image e chatID) imgs))"

definition stable :: "env \<Rightarrow> string \<Rightarrow> gmap \<Rightarrow> bool" where
  "stable e chatID m = (plain m \<or> block_message e chatID m)"

text \<open>What the JSON round trip does to such a message.\<close>

definition reencode_message :: "gmap \<Rightarrow> gmap" where
  "reencode_message m = map (map_prod id reencode) m"

lemma reencode_text_block: "map (map_prod id reencode) (text_block t) = text_block t"
  by (simp add: text_block_def)

lemma reencode_image_url_block:
  "map (map_prod id reencode) (image_url_block u) = image_url_block u"
  by (simp add: image_url_block_def)

lemma reencode_images:
  assumes "list_all (kept_image e chatID) imgs"
  shows "map (map (map_prod id reencode)) imgs = imgs"
  using assms
proof (induction imgs)
  case Nil
  show ?case by simp
next
  case (Cons b imgs)
  have "b = image_url_block (block_url b)" using Cons.prems by (simp add: kept_image_def)
  then have hb: "map (map_prod id reencode) b = b"
    using reencode_image_url_block [of "block_url b"] by simp
  have "list_all (kept_image e chatID) imgs" using Cons.prems by simp
  then have ih: "map (map (map_prod id reencode)) imgs = imgs" by (rule Cons.IH)
  show ?case by (simp only: list.map hb ih)
qed

text \<open>One image block whose URL is left alone is appended as it is.\<close>

lemma media_url_image: "media_url (image_url_block u) = u"
  by (simp add: media_url_def image_url_block_def lookup_def)

lemma block_step_image:
  assumes "kept_image e chatID b"
  shows "block_step e chatID role st (VMap b) = st\<lparr>newContent := append_block (newContent st) b\<rparr>"
proof -
  define u where "u = block_url b"
  have b: "b = image_url_block u" and k: "kept_url e chatID u"
    using assms by (simp_all add: kept_image_def u_def)
  have ne: "u \<noteq> []" using k by (simp add: kept_url_def)
  have ty: "str_of (lookup (image_url_block u) ''type'') = ''image_url''"
    by (simp add: image_url_block_def lookup_def str_of_def)
  have up: "UploadImage e u chatID = Inr [] \<or> UploadImage e u chatID = Inr u"
    using k by (simp add: kept_url_def)
  have "image_block e chatID (image_url_block u) st
      = st\<lparr>newContent := append_block (newContent st)
            [(''type'', VStr ''image_url''), (''image_url'', VMap [(''url'', VStr u)])]\<rparr>"
    using up ne by (auto simp: image_block_def media_url_image Let_def)
  then have "image_block e chatID (image_url_block u) st
      = st\<lparr>newContent := append_block (newContent st) (image_url_block u)\<rparr>"
    by (simp only: image_url_block_def [symmetric])
  then show ?thesis unfolding b by (simp add: block_step_def ty)
qed

lemma block_step_text:
  "block_step e chatID role st (VMap (text_block t)) = st\<lparr>newContent := VStr t\<rparr>"
  by (simp add: block_step_def text_block_def lookup_def str_of_def)

lemma append_block_slice: "append_block (VMaps l) b = VMaps (l @ [b])"
  by (simp add: append_block_def)

lemma append_block_string: "append_block (VStr t) b = VMaps [text_block t, b]"
  by (simp add: append_block_def text_block_def)

lemma foldl_images_slice:
  assumes "list_all (kept_image e chatID) imgs" and "newContent st = VMaps l"
  shows "foldl (block_step e chatID role) st (map VMap imgs) = st\<lparr>newContent := VMaps (l @ imgs)\<rparr>"
  using assms
proof (induction imgs arbitrary: st l)
  case Nil
  then show ?case by simp
next
  case (Cons b imgs)
  have k: "kept_image e chatID b" and ks: "list_all (kept_image e chatID) imgs"
    using Cons.prems(1) by simp_all
  let ?st = "st\<lparr>newContent := VMaps (l @ [b])\<rparr>"
  have s: "block_step e chatID role st (VMap b) = ?st"
    using block_step_image [OF k] Cons.prems(2) by (simp add: append_block_slice)
  have n: "newContent ?st = VMaps (l @ [b])" by simp
  show ?case using Cons.IH [OF ks n] by (simp add: s)
qed

lemma foldl_blocks:
  assumes "list_all (kept_image e chatID) imgs" and "imgs \<noteq> []"
  shows "foldl (block_step e chatID role) st (map VMap (text_block t # imgs))
       = st\<lparr>newContent := VMaps (text_block t # imgs)\<rparr>"
proof -
  obtain b blks where i: "imgs = b # blks" using assms(2) by (cases imgs) auto
  have k: "kept_image e chatID b" and ks: "list_all (kept_image e chatID) blks"
    using assms(1) i by simp_all
  let ?s1 = "st\<lparr>newContent := VStr t\<rparr>"
  let ?s2 = "st\<lparr>newContent := VMaps [text_block t, b]\<rparr>"
  have s2: "block_step e chatID role ?s1 (VMap b) = ?s2"
    using block_step_image [OF k, of role ?s1] by (simp add: append_block_string)
  have n: "newContent ?s2 = VMaps [text_block t, b]" by simp
  have "foldl (block_step e chatID role) ?s2 (map VMap blks)
      = ?s2\<lparr>newContent := VMaps ([text_block t, b] @ blks)\<rparr>"
    by (rule foldl_images_slice [OF ks n])
  then show ?thesis by (simp add: i block_step_text s2)
qed

text \<open>A stable message, written out and read back, is normalised to itself.\<close>

lemma message_step_plain:
  assumes "plain m"
  shows "message_step e chatID msgs (VMap (reencode_message m)) = msgs @ [m]"
proof -
  define role where "role = str_of (lookup m ''role'')"
  define content where "content = str_of (lookup m ''content'')"
  have m: "m = [(''role'', VStr role), (''content'', VStr content)]"
    using assms unfolding plain_def role_def content_def .
  show ?thesis
    by (subst (1 2) m) (simp add: reencode_message_def message_step_def lookup_def str_of_def)
qed

lemma message_step_blocks:
  assumes "block_message e chatID m"
  shows "message_step e chatID msgs (VMap (reencode_message m)) = msgs @ [m]"
proof -
  define role where "role = str_of (lookup m ''role'')"
  have m: "m = [(''role'', VStr role), (''content'', VMaps (blocks_of m))]"
    using assms unfolding block_message_def role_def by simp
  obtain b imgs where blks: "blocks_of m = b # imgs"
    using assms by (cases "blocks_of m") (simp_all add: block_message_def)
  define t where "t = str_of (lookup b ''text'')"
  have b: "b = text_block t" and ne: "imgs \<noteq> []" and k: "list_all (kept_image e chatID) imgs"
    using assms blks by (simp_all add: block_message_def t_def)
  have m': "m = [(''role'', VStr role), (''content'', VMaps (text_block t # imgs))]"
    using m blks b by simp
  have r: "reencode_message m
      = [(''role'', VStr role), (''content'', VList (map VMap (text_block t # imgs)))]"
    by (subst m') (simp add: reencode_message_def reencode_text_block reencode_images [OF k])
  have f: "foldl (block_step e chatID role)
             \<lparr>newContent = VStr [], newMessage = [(''role'', VStr role)],
              dontAppend = False, newMessages = msgs\<rparr> (map VMap (text_block t # imgs))
         = \<lparr>newContent = VMaps (text_block t # imgs), newMessage = [(''role'', VStr role)],
            dontAppend = False, newMessages = msgs\<rparr>"
    by (subst foldl_blocks [OF k ne]) simp
  have "message_step e chatID msgs (VMap (reencode_message m))
      = msgs @ [[(''role'', VStr role), (''content'', VMaps (text_block t # imgs))]]"
    unfolding r by (simp add: message_step_def lookup_def str_of_def f del: foldl.simps list.map)
  then show ?thesis using m' by simp
qed

lemma message_step_stable:
  assumes "stable e chatID m"
  shows "message_step e chatID msgs (VMap (reencode_message m)) = msgs @ [m]"
  using assms message_step_plain message_step_blocks by (auto simp: stable_def)

lemma foldl_message_step_stable:
  assumes "list_all (stable e chatID) ms"
  shows "foldl (message_step e chatID) msgs (map VMap (map reencode_message ms)) = msgs @ ms"
  using assms
proof (induction ms arbitrary: msgs)
  case Nil
  show ?case by simp
next
  case (Cons m ms)
  then show ?case by (simp add: message_step_stable)
qed

lemma map_of_reencode_map: "map_of (reencode_map m) k = map_option reencode (map_of m k)"
  by (induction m) (auto simp: reencode_map_def)

lemma lookup_reencode_map: "lookup (reencode_map m) k = reencode (lookup m k)"
  by (simp add: lookup_def map_of_reencode_map split: option.splits)

lemma str_of_reencode: "str_of (reencode v) = str_of v"
  by (cases v) (simp_all add: str_of_def)

text \<open>
  C8, as the code has it.  When the messages of a result are all stable, normalising the
  result, written out as JSON and read back, gives the same messages again.
\<close>

theorem normalize_twice_stable:
  assumes "FormatRequest e data requestType = Inr r"
    and "list_all (stable e (str_of (lookup data ''chat_id''))) (new_messages e data)"
  shows "\<exists>r'. FormatRequest e (reencode_map r) requestType = Inr r'
            \<and> lookup r' ''messages'' = lookup r ''messages''"
proof -
  define ms where "ms = new_messages e data"
  define chatID where "chatID = str_of (lookup data ''chat_id'')"
  have st: "list_all (stable e chatID) ms" using assms(2) by (simp add: ms_def chatID_def)
  obtain r' where r': "FormatRequest e (reencode_map r) requestType = Inr r'"
    using FormatRequest_total by blast
  have rm: "lookup r ''messages'' = VMaps ms"
    using FormatRequest_messages [OF assms(1)] by (simp add: ms_def)
  have sys: "system_messages (reencode_map r) = []"
    by (simp add: system_messages_def map_of_reencode_map FormatRequest_system [OF assms(1)])
  have c: "str_of (lookup (reencode_map r) ''chat_id'') = chatID"
    by (simp add: lookup_reencode_map str_of_reencode FormatRequest_chat_id [OF assms(1)]
        chatID_def)
  have "lookup (reencode_map r) ''messages'' = reencode (VMaps ms)"
    by (simp add: lookup_reencode_map rm)
  then have l: "lookup (reencode_map r) ''messages'' = VList (map VMap (map reencode_message ms))"
    by (simp add: reencode_message_def [abs_def])
  have "new_messages e (reencode_map r)
      = foldl (message_step e chatID) [] (map VMap (map reencode_message ms))"
    by (simp add: new_messages_def l sys c del: foldl.simps)
  also have "\<dots> = ms"
    using foldl_message_step_stable [OF st] by simp
  finally have "lookup r' ''messages'' = VMaps ms"
    using FormatRequest_messages [OF r'] by simp
  then show ?thesis using r' rm by simp
qed

text \<open>
  A request with a system prompt, a message with a string content and a message with a text
  block and the URL of an image, in anonymous mode: the three messages of the result are
  stable, and the second pass gives them back.
\<close>

theorem normalize_twice_stable_witness:
  "FormatRequest env0
     [(''system'', VStr ''be brief''),
      (''messages'',
       VList [VMap [(''role'', VStr ''user''), (''content'', VStr ''hi'')],
              VMap [(''role'', VStr ''user''),
                    (''content'',
                     VList [VMap [(''type'', VStr ''text''), (''text'', VStr ''look'')],
                            VMap [(''type'', VStr ''image_url''),
                                  (''image_url'', VMap [(''url'', VStr ''https://x/a.png'')])]])]])]
     ''OpenAI''
     = Inr [(''messages'',
             VMaps [[(''role'', VStr ''system''), (''content'', VStr ''be brief'')],
                    [(''role'', VStr ''user''), (''content'', VStr ''hi'')],
                    [(''role'', VStr ''user''),
                     (''content'',
                      VMaps [[(''type'', VStr ''text''), (''text'', VStr ''look'')],
                             [(''type'', VStr ''image_url''),
                              (''image_url'', VMap [(''url'', VStr ''https://x/a.png'')])]])]]),
            (''model'', VStr ''glm-4.6''), (''stream'', VBool True),
            (''features'', VMap [(''enable_thinking'', VBool False)])]
   \<and> (\<exists>r'. FormatRequest env0
          (reencode_map
             [(''messages'',
               VMaps [[(''role'', VStr ''system''), (''content'', VStr ''be brief'')],
                      [(''role'', VStr ''user''), (''content'', VStr ''hi'')],
                      [(''role'', VStr ''user''),
                       (''content'',
                        VMaps [[(''type'', VStr ''text''), (''text'', VStr ''look'')],
                               [(''type'', VStr ''image_url''),
                                (''image_url'', VMap [(''url'', VStr ''https://x/a.png'')])]])]]),
              (''model'', VStr ''glm-4.6''), (''stream'', VBool True),
              (''features'', VMap [(''enable_thinking'', VBool False)])])
          ''OpenAI'' = Inr r'
        \<and> lookup r' ''messages''
          = VMaps [[(''role'', VStr ''system''), (''content'', VStr ''be brief'')],
                   [(''role'', VStr ''user''), (''content'', VStr ''hi'')],
                   [(''role'', VStr ''user''),
                    (''content'',
                     VMaps [[(''type'', VStr ''text''), (''text'', VStr ''look'')],
                            [(''type'', VStr ''image_url''),
                             (''image_url'', VMap [(''url'', VStr ''https://x/a.png'')])]])]])"
proof -
  let ?data = "[(''system'', VStr ''be brief''),
      (''messages'',
       VList [VMap [(''role'', VStr ''user''), (''content'', VStr ''hi'')],
              VMap [(''role'', VStr ''user''),
                    (''content'',
                     VList [VMap [(''type'', VStr ''text''), (''text'', VStr ''look'')],
                            VMap [(''type'', VStr ''image_url''),
                                  (''image_url'', VMap [(''url'', VStr ''https://x/a.png'')])]])]])]"
  let ?ms = "[[(''role'', VStr ''system''), (''content'', VStr ''be brief'')],
                    [(''role'', VStr ''user''), (''content'', VStr ''hi'')],
                    [(''role'', VStr ''user''),
                     (''content'',
                      VMaps [[(''type'', VStr ''text''), (''text'', VStr ''look'')],
                             [(''type'', VStr ''image_url''),
                              (''image_url'', VMap [(''url'', VStr ''https://x/a.png'')])]])]]"
  let ?r = "[(''messages'', VMaps ?ms),
            (''model'', VStr ''glm-4.6''), (''stream'', VBool True),
            (''features'', VMap [(''enable_thinking'', VBool False)])]"
  have h1: "FormatRequest env0 ?data ''OpenAI'' = Inr ?r" by code_simp
  have h2: "list_all (stable env0 (str_of (lookup ?data ''chat_id''))) (new_messages env0 ?data)"
    by code_simp
  have l: "lookup ?r ''messages'' = VMaps ?ms" by code_simp
  obtain r' where r': "FormatRequest env0 (reencode_map ?r) ''OpenAI'' = Inr r'"
    and e: "lookup r' ''messages'' = lookup ?r ''messages''"
    using normalize_twice_stable [OF h1 h2] by (elim exE conjE)
  have e': "lookup r' ''messages'' = VMaps ?ms" using e unfolding l .
  have "\<exists>r'. FormatRequest env0 (reencode_map ?r) ''OpenAI'' = Inr r'
        \<and> lookup r' ''messages'' = VMaps ?ms"
    by (intro exI conjI) (rule r' e')+
  then show ?thesis using h1 by (intro conjI)
qed

text \<open>
  The claim as it is written fails.  Given its own result as it is, \<^verbatim>\<open>FormatRequest\<close> finds a
  \<^verbatim>\<open>[]map[string]interface{}\<close> where line 71 asks for a \<^verbatim>\<open>[]interface{}\<close>, and returns no message
  at all.  And there are results that, written out as JSON and read back, are not normalised
  to the same messages: the message of a tool result comes back without its \<^verbatim>\<open>tool_call_id\<close>,
  and the two text blocks that stand for an image without a URL come back as the string of
  the second one.
\<close>

theorem normalize_twice_counterexample:
  "FormatRequest env0
     [(''messages'', VList [VMap [(''role'', VStr ''user''), (''content'', VStr ''hi'')]])]
     ''OpenAI''
     = Inr [(''messages'', VMaps [[(''role'', VStr ''user''), (''content'', VStr ''hi'')]]),
            (''model'', VStr ''glm-4.6''), (''stream'', VBool True),
            (''features'', VMap [(''enable_thinking'', VBool False)])]
   \<and> FormatRequest env0
       [(''messages'', VMaps [[(''role'', VStr ''user''), (''content'', VStr ''hi'')]]),
        (''model'', VStr ''glm-4.6''), (''stream'', VBool True),
        (''features'', VMap [(''enable_thinking'', VBool False)])]
       ''OpenAI''
     = Inr [(''messages'', VMaps []),
            (''model'', VStr ''glm-4.6''), (''stream'', VBool True),
            (''features'', VMap [(''enable_thinking'', VBool False)])]
   \<and> FormatRequest env0
       [(''messages'',
         VList [VMap [(''role'', VStr ''user''),
                      (''content'',
                       VList [VMap [(''type'', VStr ''tool_result''),
                                    (''tool_use_id'', VStr ''t1''),
                                    (''content'', VStr ''ok'')]])]])]
       ''Anthropic''
     = Inr [(''messages'',
             VMaps [[(''role'', VStr ''tool''), (''tool_call_id'', VStr ''t1''),
                     (''content'', VStr ''ok'')]]),
            (''model'', VStr ''glm-4.6''), (''stream'', VBool True),
            (''features'', VMap [(''enable_thinking'', VBool False)])]
   \<and> FormatRequest env0
       (reencode_map
          [(''messages'',
            VMaps [[(''role'', VStr ''tool''), (''tool_call_id'', VStr ''t1''),
                    (''content'', VStr ''ok'')]]),
           (''model'', VStr ''glm-4.6''), (''stream'', VBool True),
           (''features'', VMap [(''enable_thinking'', VBool False)])])
       ''Anthropic''
     = Inr [(''messages'', VMaps [[(''role'', VStr ''tool''), (''content'', VStr ''ok'')]]),
            (''model'', VStr ''glm-4.6''), (''stream'', VBool True),
            (''features'', VMap [(''enable_thinking'', VBool False)])]
   \<and> FormatRequest env0
       [(''messages'',
         VList [VMap [(''role'', VStr ''user''),
                      (''content'', VList [VMap [(''type'', VStr ''image'')]])]])]
       ''OpenAI''
     = Inr [(''messages'',
             VMaps [[(''role'', VStr ''user''),
                     (''content'',
                      VMaps [[(''type'', VStr ''text''), (''text'', VStr [])],
                             [(''type'', VStr ''text''),
                              (''text'',
                               VStr ''system: image error - Unsupported format or missing URL'')]])]]),
            (''model'', VStr ''glm-4.6''), (''stream'', VBool True),
            (''features'', VMap [(''enable_thinking'', VBool False)])]
   \<and> FormatRequest env0
       (reencode_map
          [(''messages'',
            VMaps [[(''role'', VStr ''user''),
                    (''content'',
                     VMaps [[(''type'', VStr ''text''), (''text'', VStr [])],
                            [(''type'', VStr ''text''),
                             (''text'',
                              VStr ''system: image error - Unsupported format or missing URL'')]])]]),
           (''model'', VStr ''glm-4.6''), (''stream'', VBool True),
           (''features'', VMap [(''enable_thinking'', VBool False)])])
       ''OpenAI''
     = Inr [(''messages'',
             VMaps [[(''role'', VStr ''user''),
                     (''content'',
                      VStr ''system: image error - Unsupported format or missing URL'')]]),
            (''model'', VStr ''glm-4.6''), (''stream'', VBool True),
            (''features'', VMap [(''enable_thinking'', VBool False)])]"
  by code_simp

section \<open>The signature generator: \<^verbatim>\<open>GenerateSignature\<close>\<close>

text \<open>
  \<^verbatim>\<open>strconv.ParseInt(s, 10, 64)\<close>: an optional sign, then decimal digits only, at least one; the
  value must lie in the range of \<^verbatim>\<open>int64\<close>.  \<^verbatim>\<open>strconv.FormatInt(i, 10)\<close> and the verb \<^verbatim>\<open>%d\<close> write
  the decimal digits, with a minus sign before a negative number.
\<close>

definition digits_value :: "string \<Rightarrow> int" where
  "digits_value ds = foldl (\<lambda>n c. 10 * n + (of_char c - 48)) 0 ds"

definition ParseInt :: "string \<Rightarrow> int option" where
  "ParseInt s =
     (let neg = HasPrefix s ''-'' \<and> s \<noteq> [];
          ds = (if s \<noteq> [] \<and> (hd s = CHR ''+'' \<or> hd s = CHR ''-'') then tl s else s)
      in if ds = [] then None
         else if list_all re_digit ds then
           (if neg then (if 9223372036854775808 < digits_value ds then None
                         else Some (- digits_value ds))
            else (if 9223372036854775808 \<le> digits_value ds then None
                  else Some (digits_value ds)))
         else None)"

function decimal :: "int \<Rightarrow> string" where
  "decimal n =
     (if n < 10 then [char_of (48 + n)] else decimal (n div 10) @ [char_of (48 + n mod 10)])"
  by pat_completeness auto
termination
  by (relation "measure nat") auto

declare decimal.simps [simp del]

definition FormatInt :: "int \<Rightarrow> string" where
  "FormatInt i = (if i < 0 then CHR ''-'' # decimal (- i) else decimal i)"

text \<open>Division of \<^verbatim>\<open>int64\<close> in Go truncates towards zero.\<close>

definition quo :: "int \<Rightarrow> int \<Rightarrow> int" where
  "quo a b = sgn a * sgn b * (\<bar>a\<bar> div \<bar>b\<bar>)"

text \<open>\<^verbatim>\<open>hex.EncodeToString\<close> and \<^verbatim>\<open>base64.StdEncoding.EncodeToString\<close>.\<close>

definition hex_digit :: "nat \<Rightarrow> char" where
  "hex_digit n = ''0123456789abcdef'' ! n"

definition hex_encode :: "string \<Rightarrow> string" where
  "hex_encode s =
     concat (map (\<lambda>b. [hex_digit ((of_char b :: nat) div 16), hex_digit ((of_char b :: nat) mod 16)]) s)"

definition b64_char :: "nat \<Rightarrow> char" where
  "b64_char n = ''ABCDEFGHIJKLMNOPQRSTUVWXYZabcdefghijklmnopqrstuvwxyz0123456789+/'' ! n"

fun b64 :: "string \<Rightarrow> string" where
  "b64 [] = []"
| "b64 [a] =
     (let x = (of_char a :: nat)
      in [b64_char (x div 4), b64_char (x mod 4 * 16), CHR ''='', CHR ''=''])"
| "b64 [a, b] =
     (let x = (of_char a :: nat); y = (of_char b :: nat)
      in [b64_char (x div 4), b64_char (x mod 4 * 16 + y div 16), b64_char (y mod 16 * 4),
          CHR ''=''])"
| "b64 (a # b # c # r) =
     (let x = (of_char a :: nat); y = (of_char b :: nat); z = (of_char c :: nat)
      in [b64_char (x div 4), b64_char (x mod 4 * 16 + y div 16),
          b64_char (y mod 16 * 4 + z div 64), b64_char (z mod 64)] @ b64 r)"

text \<open>
  The HMAC-SHA256 of \<^verbatim>\<open>crypto/hmac\<close> and \<^verbatim>\<open>crypto/sha256\<close> is a parameter, \<open>hmac key message\<close>, of
  everything below: the repository does not hold it.  \<open>hmacSHA256\<close> is lines 78 to 82.
\<close>

definition hmacSHA256 :: "(string \<Rightarrow> string \<Rightarrow> string) \<Rightarrow> string \<Rightarrow> string \<Rightarrow> string" where
  "hmacSHA256 hmac key message = hex_encode (hmac key message)"

definition secretKey :: string where
  "secretKey = ''key-@@@@)))()((9))-xxxx&&&%%%%%''"

record SignatureResult =
  Signature :: string
  Timestamp :: int

datatype sig_error = MissingParameter string | InvalidTimestamp

text \<open>
  The parameters are a \<^verbatim>\<open>map[string]string\<close>: a list of keys and values, read with \<open>map_of\<close>.
  Reading a key gives the empty string when the key is absent.  \<^verbatim>\<open>sort.Strings\<close> orders the keys
  byte by byte, which is the order of \<^typ>\<open>string\<close> here.
\<close>

definition param :: "(string \<times> string) list \<Rightarrow> string \<Rightarrow> string" where
  "param params k = (case map_of params k of None \<Rightarrow> [] | Some v \<Rightarrow> v)"

definition params_string :: "(string \<times> string) list \<Rightarrow> string" where
  "params_string params =
     Join (map (\<lambda>k. k @ '','' @ param params k) (sort (remdups (map fst params)))) '',''"

definition GenerateSignature ::
  "(string \<Rightarrow> string \<Rightarrow> string) \<Rightarrow> (string \<times> string) list \<Rightarrow> string
     \<Rightarrow> sig_error + SignatureResult" where
  "GenerateSignature hmac params content =
     (case find (\<lambda>key. map_of params key = None) [''timestamp'', ''requestId'', ''user_id''] of
        Some key \<Rightarrow> Inl (MissingParameter key)
      | None \<Rightarrow>
          (case ParseInt (param params ''timestamp'') of
             None \<Rightarrow> Inl InvalidTimestamp
           | Some requestTime \<Rightarrow>
               (let signatureExpire = quo requestTime (5 * 60 * 1000);
                    plaintext1 = FormatInt signatureExpire;
                    signature1 = hmacSHA256 hmac secretKey plaintext1;
                    contentB64 = b64 content;
                    plaintext2 = params_string params @ ''|'' @ contentB64 @ ''|''
                                 @ FormatInt requestTime;
                    signature2 = hmacSHA256 hmac signature1 plaintext2
                in Inr \<lparr>Signature = signature2, Timestamp = requestTime\<rparr>)))"

text \<open>
  The algorithm in the words of the specification, for the three parameters and the
  timestamp as a number: the window is the floor of the quotient.
\<close>

definition spec_signature ::
  "(string \<Rightarrow> string \<Rightarrow> string) \<Rightarrow> string \<Rightarrow> string \<Rightarrow> string \<Rightarrow> int \<Rightarrow> string \<Rightarrow> string" where
  "spec_signature hmac requestId timestamp userId timestampMillis content =
     (let windowId = timestampMillis div 300000;
          level1 = hex_encode (hmac secretKey (FormatInt windowId));
          paramString = ''requestId,'' @ requestId @ '',timestamp,'' @ timestamp
                        @ '',user_id,'' @ userId;
          plaintext2 = paramString @ ''|'' @ b64 content @ ''|'' @ FormatInt timestampMillis
      in hex_encode (hmac level1 plaintext2))"

section \<open>Properties of the signature generator\<close>

lemma quo_nonneg: "0 \<le> a \<Longrightarrow> 0 < b \<Longrightarrow> quo a b = a div b"
  by (cases "a = 0") (simp_all add: quo_def)

lemma sorted_three_keys:
  assumes "set (map fst params) = {''timestamp'', ''requestId'', ''user_id''}"
  shows "sort (remdups (map fst params)) = [''requestId'', ''timestamp'', ''user_id'']"
proof -
  have "sort (remdups (map fst params)) = sorted_list_of_set (set (map fst params))"
    by (simp only: sorted_list_of_set_sort_remdups)
  also have "\<dots> = sorted_list_of_set (set [''requestId'', ''timestamp'', ''user_id''])"
    unfolding assms by (simp add: insert_commute)
  also have "\<dots> = sort (remdups [''requestId'', ''timestamp'', ''user_id''])"
    by (simp only: sorted_list_of_set_sort_remdups)
  also have "\<dots> = [''requestId'', ''timestamp'', ''user_id'']"
    by code_simp
  finally show ?thesis .
qed

lemma params_string_three:
  assumes "set (map fst params) = {''timestamp'', ''requestId'', ''user_id''}"
    and "map_of params ''requestId'' = Some r" and "map_of params ''timestamp'' = Some t"
    and "map_of params ''user_id'' = Some u"
  shows "params_string params = ''requestId,'' @ r @ '',timestamp,'' @ t @ '',user_id,'' @ u"
  using assms(2-4) by (simp add: params_string_def sorted_three_keys [OF assms(1)] param_def)

lemma GenerateSignature_ok:
  assumes "map_of params ''requestId'' = Some r" and "map_of params ''timestamp'' = Some t"
    and "map_of params ''user_id'' = Some u" and "ParseInt t = Some ts"
  shows "GenerateSignature hmac params content =
     Inr \<lparr>Signature =
            hmacSHA256 hmac (hmacSHA256 hmac secretKey (FormatInt (quo ts 300000)))
              (params_string params @ ''|'' @ b64 content @ ''|'' @ FormatInt ts),
          Timestamp = ts\<rparr>"
  using assms by (simp add: GenerateSignature_def param_def Let_def)

lemma GenerateSignature_error:
  "isl (GenerateSignature hmac params content) =
     (map_of params ''timestamp'' = None \<or> map_of params ''requestId'' = None
      \<or> map_of params ''user_id'' = None \<or> ParseInt (param params ''timestamp'') = None)"
  by (auto simp: GenerateSignature_def Let_def split: option.splits)

text \<open>
  C5, as the code has it.  When the keys of the map are just the three and the timestamp is
  read by \<^verbatim>\<open>ParseInt\<close> as a number that is not negative, the result is the signature of the five
  steps, with that number as its timestamp.  For every map, the call fails exactly when one of
  the three keys is absent or \<^verbatim>\<open>ParseInt\<close> does not read the timestamp.
\<close>

theorem signature_five_steps:
  "(set (map fst params) = {''timestamp'', ''requestId'', ''user_id''}
      \<and> map_of params ''requestId'' = Some r \<and> map_of params ''timestamp'' = Some t
      \<and> map_of params ''user_id'' = Some u \<and> ParseInt t = Some ts \<and> 0 \<le> ts
    \<longrightarrow> GenerateSignature hmac params content
        = Inr \<lparr>Signature = spec_signature hmac r t u ts content, Timestamp = ts\<rparr>)
   \<and> (isl (GenerateSignature hmac params content)
        = (map_of params ''timestamp'' = None \<or> map_of params ''requestId'' = None
           \<or> map_of params ''user_id'' = None \<or> ParseInt (param params ''timestamp'') = None))"
proof (intro conjI impI)
  assume a: "set (map fst params) = {''timestamp'', ''requestId'', ''user_id''}
      \<and> map_of params ''requestId'' = Some r \<and> map_of params ''timestamp'' = Some t
      \<and> map_of params ''user_id'' = Some u \<and> ParseInt t = Some ts \<and> 0 \<le> ts"
  note a1 = a [THEN conjunct1]
  note a2 = a [THEN conjunct2, THEN conjunct1]
  note a3 = a [THEN conjunct2, THEN conjunct2, THEN conjunct1]
  note a4 = a [THEN conjunct2, THEN conjunct2, THEN conjunct2, THEN conjunct1]
  note a5 = a [THEN conjunct2, THEN conjunct2, THEN conjunct2, THEN conjunct2, THEN conjunct1]
  note a6 = a [THEN conjunct2, THEN conjunct2, THEN conjunct2, THEN conjunct2, THEN conjunct2]
  note p = params_string_three [OF a1 a2 a3 a4]
  have q: "quo ts 300000 = ts div 300000" using a6 by (simp add: quo_nonneg)
  have "GenerateSignature hmac params content =
     Inr \<lparr>Signature =
            hmacSHA256 hmac (hmacSHA256 hmac secretKey (FormatInt (quo ts 300000)))
              (params_string params @ ''|'' @ b64 content @ ''|'' @ FormatInt ts),
          Timestamp = ts\<rparr>"
    by (rule GenerateSignature_ok [OF a2 a3 a4 a5])
  then show "GenerateSignature hmac params content
        = Inr \<lparr>Signature = spec_signature hmac r t u ts content, Timestamp = ts\<rparr>"
    by (simp add: p q spec_signature_def hmacSHA256_def Let_def)
next
  show "isl (GenerateSignature hmac params content)
        = (map_of params ''timestamp'' = None \<or> map_of params ''requestId'' = None
           \<or> map_of params ''user_id'' = None \<or> ParseInt (param params ''timestamp'') = None)"
    by (rule GenerateSignature_error)
qed

text \<open>
  For a theorem at a concrete input the hash has to be a concrete function too.  \<open>show_hmac\<close>
  is a keyed hash that shows what it is given: the key, a slash and the message.  With it in
  the place of HMAC-SHA256, a signature spells out the texts that are hashed; two signatures
  of HMAC-SHA256 itself over different texts would be equal only by a collision.
\<close>

definition show_hmac :: "string \<Rightarrow> string \<Rightarrow> string" where
  "show_hmac key message = key @ ''/'' @ message"

theorem signature_five_steps_witness:
  "set (map fst [(''timestamp'', ''1700000000000''), (''requestId'', ''r1''), (''user_id'', ''u1'')])
     = {''timestamp'', ''requestId'', ''user_id''}
   \<and> ParseInt ''1700000000000'' = Some 1700000000000
   \<and> GenerateSignature show_hmac
        [(''timestamp'', ''1700000000000''), (''requestId'', ''r1''), (''user_id'', ''u1'')] ''hi''
     = Inr \<lparr>Signature = spec_signature show_hmac ''r1'' ''1700000000000'' ''u1'' 1700000000000 ''hi'',
            Timestamp = 1700000000000\<rparr>"
proof -
  let ?P = "[(''timestamp'', ''1700000000000''), (''requestId'', ''r1''), (''user_id'', ''u1'')]"
  have k: "set (map fst ?P) = {''timestamp'', ''requestId'', ''user_id''}" by simp
  have r: "map_of ?P ''requestId'' = Some ''r1''" by simp
  have t: "map_of ?P ''timestamp'' = Some ''1700000000000''" by simp
  have u: "map_of ?P ''user_id'' = Some ''u1''" by simp
  have p: "ParseInt ''1700000000000'' = Some 1700000000000" by code_simp
  have n: "(0::int) \<le> 1700000000000" by simp
  have h: "set (map fst ?P) = {''timestamp'', ''requestId'', ''user_id''}
      \<and> map_of ?P ''requestId'' = Some ''r1'' \<and> map_of ?P ''timestamp'' = Some ''1700000000000''
      \<and> map_of ?P ''user_id'' = Some ''u1'' \<and> ParseInt ''1700000000000'' = Some 1700000000000
      \<and> (0::int) \<le> 1700000000000"
    by (intro conjI k r t u p n)
  note s = signature_five_steps
    [of ?P "''r1''" "''1700000000000''" "''u1''" 1700000000000 show_hmac "''hi''",
     THEN conjunct1, THEN mp, OF h]
  show ?thesis by (intro conjI k p s)
qed

text \<open>
  The claim as it is written fails.  For the timestamp \<^verbatim>\<open>"-1"\<close> the window of the code is
  \<open>0\<close>, since the division of line 39 truncates, and the floor is \<open>-1\<close>: the first hash is
  taken over \<^verbatim>\<open>"0"\<close> and not over \<^verbatim>\<open>"-1"\<close>.  And for a map with a fourth key, the code joins
  all four parameters, not the three.
\<close>

theorem signature_five_steps_counterexample:
  "ParseInt ''-1'' = Some (- 1)
   \<and> quo (- 1) (5 * 60 * 1000) = 0
   \<and> (- 1) div (300000 :: int) = - 1
   \<and> GenerateSignature show_hmac
        [(''timestamp'', ''-1''), (''requestId'', ''r''), (''user_id'', ''u'')] []
     \<noteq> Inr \<lparr>Signature = spec_signature show_hmac ''r'' ''-1'' ''u'' (- 1) [], Timestamp = - 1\<rparr>
   \<and> params_string
        [(''timestamp'', ''0''), (''requestId'', ''r''), (''user_id'', ''u''), (''nonce'', ''n'')]
     = ''nonce,n,requestId,r,timestamp,0,user_id,u''
   \<and> GenerateSignature show_hmac
        [(''timestamp'', ''0''), (''requestId'', ''r''), (''user_id'', ''u''), (''nonce'', ''n'')] []
     \<noteq> Inr \<lparr>Signature = spec_signature show_hmac ''r'' ''0'' ''u'' 0 [], Timestamp = 0\<rparr>"
  by code_simp

end
